theory Spec2Isabelle
  imports Main
begin

section \<open>The database file\<close>

text \<open>
  The two tables of \<^verbatim>\<open>hashicorp.sqlite\<close>, as the DDL of the Loader declares them
  (lines 63-80). A column declared \<^verbatim>\<open>NOT NULL\<close> holds a string, a nullable column a
  \<open>string option\<close> with \<open>None\<close> for SQL \<^verbatim>\<open>NULL\<close>. SQLite does not enforce the
  length of a \<^verbatim>\<open>VARCHAR(n)\<close>, so no length bound appears. Rows are kept in insertion
  order.
\<close>

record department_row =
  D_ID :: string
  D_NAME :: string
  D_PARENT :: "string option"

record person_row =
  P_ID :: string
  P_NAME :: string
  P_AVATAR_URL :: "string option"
  P_DEPARTMENT_ID :: string

record database =
  DEPARTMENTS :: "department_row list"
  PEOPLE :: "person_row list"

text \<open>
  Both tables are created together by the Loader (lines 82-83), so a database file either
  has both (\<open>Some db\<close>) or is a fresh file without any table (\<open>None\<close>, what
  \<^verbatim>\<open>new Database('hashicorp.sqlite')\<close> creates when the file does not exist).
\<close>

type_synonym database_file = "database option"

datatype error =
    NotNullConstraint string
  | PrimaryKeyConstraint string
  | ForeignKeyConstraint
  | NoSuchTable string
  | SqliteError string
  | NotIterable
  | FetchError string

section \<open>The Loader\<close>

subsection \<open>The feed\<close>

text \<open>
  The result of the GraphQL query (lines 22-43). \<^verbatim>\<open>parent\<close>, \<^verbatim>\<open>avatar\<close> and
  \<^verbatim>\<open>department\<close> are read with \<^verbatim>\<open>?.\<close>, so each may be absent; \<^verbatim>\<open>allPeople\<close> is read
  with \<^verbatim>\<open>?.\<close> too.
\<close>

record parent_node =
  pn_name :: string
  pn_id :: string

record department_node =
  dn_name :: string
  dn_id :: string
  dn_parent :: "parent_node option"

record avatar_node =
  an_url :: string

record department_ref =
  dr_name :: string

record person_node =
  ps_id :: string
  ps_name :: string
  ps_title :: string
  ps_avatar :: "avatar_node option"
  ps_department :: "department_ref option"

record query_result =
  allDepartments :: "department_node list"
  allPeople :: "person_node list option"

subsection \<open>Bound parameters\<close>

text \<open>
  \<^verbatim>\<open>x || null\<close> on a string: the empty string is the only falsy string, and an absent
  object gives \<^verbatim>\<open>undefined\<close>, falsy as well.
\<close>

definition or_null :: "string option \<Rightarrow> string option" where
  "or_null v = (case v of None \<Rightarrow> None | Some s \<Rightarrow> (if s = [] then None else Some s))"

record department_params =
  dp_id :: string
  dp_name :: string
  dp_parent :: "string option"

text \<open>
  \<open>pp_department_name\<close> is \<^verbatim>\<open>person.department?.name\<close>: \<open>None\<close> stands for
  \<^verbatim>\<open>undefined\<close>, which better-sqlite3 binds as \<^verbatim>\<open>NULL\<close>.
\<close>

record person_params =
  pp_id :: string
  pp_name :: string
  pp_avatar_url :: "string option"
  pp_department_name :: "string option"

definition department_params_of :: "department_node \<Rightarrow> department_params" where
  "department_params_of department =
     \<lparr> dp_id = dn_id department,
       dp_name = dn_name department,
       dp_parent = or_null (map_option pn_id (dn_parent department)) \<rparr>"

definition person_params_of :: "person_node \<Rightarrow> person_params" where
  "person_params_of person =
     \<lparr> pp_id = ps_id person,
       pp_name = ps_name person,
       pp_avatar_url = or_null (map_option an_url (ps_avatar person)),
       pp_department_name = map_option dr_name (ps_department person) \<rparr>"

subsection \<open>Statements\<close>

text \<open>
  Inside a transaction SQLite keeps, for the connection, a counter of the violations of
  deferred foreign keys. A statement runs on the tables and on that counter.
\<close>

type_synonym session = "database \<times> int"

text \<open>
  A row whose \<^verbatim>\<open>PARENT\<close> is \<^verbatim>\<open>NULL\<close> or the \<^verbatim>\<open>ID\<close> of a row of the table.
\<close>

definition parent_exists :: "department_row list \<Rightarrow> department_row \<Rightarrow> bool" where
  "parent_exists rows r =
     (case D_PARENT r of None \<Rightarrow> True | Some p \<Rightarrow> p \<in> set (map D_ID rows))"

definition department_row_of :: "department_params \<Rightarrow> department_row" where
  "department_row_of p = \<lparr> D_ID = dp_id p, D_NAME = dp_name p, D_PARENT = dp_parent p \<rparr>"

text \<open>
  The new row violates the deferred foreign key when its \<^verbatim>\<open>PARENT\<close> is neither
  \<^verbatim>\<open>NULL\<close>, nor its own \<^verbatim>\<open>ID\<close>, nor the \<^verbatim>\<open>ID\<close> of a row of the table.
\<close>

definition missing_parent :: "department_row list \<Rightarrow> department_params \<Rightarrow> bool" where
  "missing_parent rows p =
     (case dp_parent p of
        None \<Rightarrow> False
      | Some q \<Rightarrow> q \<noteq> dp_id p \<and> q \<notin> set (map D_ID rows))"

definition children_of :: "department_row list \<Rightarrow> string \<Rightarrow> nat" where
  "children_of rows x = length (filter (\<lambda>r. D_PARENT r = Some x) rows)"

text \<open>
  The counter after the insert of a row. The row counts one when its parent is
  missing. Then, unless the counter is zero, the rows of the table that name the new
  \<^verbatim>\<open>ID\<close> as their \<^verbatim>\<open>PARENT\<close> are looked up and each takes one off: they have their
  parent now.
\<close>

definition deferred_after :: "department_row list \<Rightarrow> int \<Rightarrow> department_params \<Rightarrow> int" where
  "deferred_after rows n p =
     (let n1 = n + (if missing_parent rows p then 1 else 0)
      in if n1 = 0 then n1 else n1 - int (children_of rows (dp_id p)))"

text \<open>
  \<^verbatim>\<open>INSERT INTO DEPARTMENTS (ID, NAME, PARENT) VALUES (:id, :name, :parent)\<close>.
  The primary key is checked by the statement; the foreign key on \<^verbatim>\<open>PARENT\<close> is
  \<^verbatim>\<open>DEFERRABLE INITIALLY DEFERRED\<close> and is only counted. A statement that fails changes
  nothing.
\<close>

definition insertDepartmentRow :: "session \<Rightarrow> department_params \<Rightarrow> error + session" where
  "insertDepartmentRow s p =
     (case s of (db, n) \<Rightarrow>
        if dp_id p \<in> set (map D_ID (DEPARTMENTS db))
        then Inl (PrimaryKeyConstraint ''DEPARTMENTS.ID'')
        else Inr (db \<lparr> DEPARTMENTS := DEPARTMENTS db @ [department_row_of p] \<rparr>,
                  deferred_after (DEPARTMENTS db) n p))"

text \<open>
  \<^verbatim>\<open>INSERT INTO PEOPLE (ID, NAME, AVATAR_URL, DEPARTMENT_ID)
  VALUES (:id, :name, :avatar_url, (SELECT ID FROM DEPARTMENTS WHERE NAME = :department_name))\<close>.
  Binding comes first, then the scalar subquery (the first matching row, \<^verbatim>\<open>NULL\<close> when
  there is none, and none matches a \<^verbatim>\<open>NULL\<close> name), then \<^verbatim>\<open>NOT NULL\<close>, the primary
  key and the immediate foreign key.
\<close>

definition resolve_department :: "database \<Rightarrow> string \<Rightarrow> string option" where
  "resolve_department db department_name =
     map_option D_ID (find (\<lambda>d. D_NAME d = department_name) (DEPARTMENTS db))"

text \<open>The row of the \<^verbatim>\<open>VALUES\<close> clause, or the error that stops the statement before.\<close>

definition person_values :: "database \<Rightarrow> person_params \<Rightarrow> error + person_row" where
  "person_values db p =
     (case (case pp_department_name p of
              None \<Rightarrow> None
            | Some department_name \<Rightarrow> resolve_department db department_name) of
        None \<Rightarrow> Inl (NotNullConstraint ''PEOPLE.DEPARTMENT_ID'')
      | Some department_id \<Rightarrow>
          Inr \<lparr> P_ID = pp_id p, P_NAME = pp_name p,
                P_AVATAR_URL = pp_avatar_url p,
                P_DEPARTMENT_ID = department_id \<rparr>)"

definition insertPersonRow :: "database \<Rightarrow> person_params \<Rightarrow> error + database" where
  "insertPersonRow db p =
     (case person_values db p of
        Inl e \<Rightarrow> Inl e
      | Inr r \<Rightarrow>
          if P_ID r \<in> set (map P_ID (PEOPLE db))
          then Inl (PrimaryKeyConstraint ''PEOPLE.ID'')
          else if P_DEPARTMENT_ID r \<notin> set (map D_ID (DEPARTMENTS db))
          then Inl ForeignKeyConstraint
          else Inr (db \<lparr> PEOPLE := PEOPLE db @ [r] \<rparr>))"

text \<open>
  \<^verbatim>\<open>PEOPLE\<close> has no deferred foreign key and no table refers to it: a statement on it
  leaves the counter as it is.
\<close>

definition without_deferred :: "(database \<Rightarrow> 'a \<Rightarrow> error + database) \<Rightarrow> session \<Rightarrow> 'a
    \<Rightarrow> error + session" where
  "without_deferred stmt s x =
     (case s of (db, n) \<Rightarrow>
        (case stmt db x of Inl e \<Rightarrow> Inl e | Inr db' \<Rightarrow> Inr (db', n)))"

subsection \<open>Transactions\<close>

text \<open>
  The body of both transactions, \<^verbatim>\<open>for (const x of xs) { stmt.run(x) }\<close>: the first
  statement that throws ends the loop, and the rows inserted before it are still in
  the table at that moment.
\<close>

fun run_each :: "('s \<Rightarrow> 'a \<Rightarrow> error + 's) \<Rightarrow> 's \<Rightarrow> 'a list \<Rightarrow> error option \<times> 's" where
  "run_each stmt s [] = (None, s)"
| "run_each stmt s (x # xs) =
     (case stmt s x of
        Inl e \<Rightarrow> (Some e, s)
      | Inr s' \<Rightarrow> run_each stmt s' xs)"

text \<open>
  \<^verbatim>\<open>db.transaction(fn)\<close> of better-sqlite3: \<^verbatim>\<open>BEGIN\<close>, the body, \<^verbatim>\<open>COMMIT\<close>; when the
  body or the commit throws, \<^verbatim>\<open>ROLLBACK\<close> to the state at \<^verbatim>\<open>BEGIN\<close> and the error is
  thrown again. The counter is zero at \<^verbatim>\<open>BEGIN\<close>, and \<^verbatim>\<open>COMMIT\<close> fails when it is
  above zero: SQLite does not look at the table then, only at what the statements of
  the transaction counted.
\<close>

definition transaction :: "(session \<Rightarrow> 'a \<Rightarrow> error option \<times> session) \<Rightarrow> database \<Rightarrow> 'a
    \<Rightarrow> error option \<times> database" where
  "transaction fn db arg =
     (case fn (db, 0) arg of
        (Some e, _) \<Rightarrow> (Some e, db)
      | (None, (db', n)) \<Rightarrow>
          if 0 < n then (Some ForeignKeyConstraint, db) else (None, db'))"

definition insertDepartments :: "database \<Rightarrow> department_params list \<Rightarrow> error option \<times> database" where
  "insertDepartments = transaction (run_each insertDepartmentRow)"

text \<open>
  \<^verbatim>\<open>insertPeople\<close> is called with \<^verbatim>\<open>result.allPeople?.map(...)\<close>, which is
  \<^verbatim>\<open>undefined\<close> when \<^verbatim>\<open>allPeople\<close> is absent; the \<^verbatim>\<open>for ... of\<close> then throws.
\<close>

definition insertPeople :: "database \<Rightarrow> person_params list option \<Rightarrow> error option \<times> database" where
  "insertPeople = transaction (\<lambda>s people.
     case people of
       None \<Rightarrow> (Some NotIterable, s)
     | Some ps \<Rightarrow> run_each (without_deferred insertPersonRow) s ps)"

subsection \<open>main\<close>

datatype log_entry = Info string | Error error

record run =
  db_file :: database_file
  console :: "log_entry list"
  handle_open :: bool
  rejected :: "error option"

text \<open>\<^verbatim>\<open>CREATE TABLE IF NOT EXISTS\<close>, twice (lines 63-83).\<close>

definition create_tables :: "database_file \<Rightarrow> database" where
  "create_tables file =
     (case file of None \<Rightarrow> \<lparr> DEPARTMENTS = [], PEOPLE = [] \<rparr> | Some db \<Rightarrow> db)"

text \<open>The \<^verbatim>\<open>try\<close> block (lines 59-135): the error it throws, if any, and the database.\<close>

definition try_block :: "query_result \<Rightarrow> database_file \<Rightarrow> error option \<times> database" where
  "try_block result file =
     (case insertDepartments (create_tables file)
             (map department_params_of (allDepartments result)) of
        (Some e, db) \<Rightarrow> (Some e, db)
      | (None, db) \<Rightarrow>
          insertPeople db (map_option (map person_params_of) (allPeople result)))"

text \<open>
  \<^verbatim>\<open>main\<close> (lines 45-141). The handle is opened first; \<^verbatim>\<open>await executeQuery\<close> stands
  before the \<^verbatim>\<open>try\<close>, so when the fetch fails the promise of \<^verbatim>\<open>main\<close> is rejected
  with that error and neither \<^verbatim>\<open>catch\<close> nor \<^verbatim>\<open>finally\<close> runs.
\<close>

definition main :: "error + query_result \<Rightarrow> database_file \<Rightarrow> run" where
  "main fetched file =
     (case fetched of
        Inl e \<Rightarrow> \<lparr> db_file = file, console = [], handle_open = True, rejected = Some e \<rparr>
      | Inr result \<Rightarrow>
          (case try_block result file of
             (None, db) \<Rightarrow>
               \<lparr> db_file = Some db,
                 console = [Info ''SQLite database created successfully.''],
                 handle_open = False, rejected = None \<rparr>
           | (Some e, db) \<Rightarrow>
               \<lparr> db_file = Some db, console = [Error e],
                 handle_open = False, rejected = None \<rparr>))"

section \<open>The Query Service\<close>

subsection \<open>The request and the response\<close>

text \<open>
  \<^verbatim>\<open>req.query.search\<close> is a string, an array of strings (the parameter given more than
  once) or \<^verbatim>\<open>undefined\<close> (\<open>None\<close>).
\<close>

datatype query_value = Str string | Arr "string list"

record avatar =
  av_url :: "string option"

record department =
  dep_id :: string
  dep_name :: string

record person_record =
  pr_id :: string
  pr_name :: string
  pr_avatar :: avatar
  pr_department :: department

record response =
  status :: nat
  results :: "person_record list"

text \<open>
  What a call of \<^verbatim>\<open>handler\<close> leaves behind: the response it sent, if any; the error it
  threw, if any; what it wrote with \<^verbatim>\<open>console.error\<close>; whether the connection it
  opened is still open.
\<close>

record handled =
  response :: "response option"
  thrown :: "error option"
  logged :: "error list"
  connection_open :: bool

subsection \<open>The SQL text\<close>

definition quote :: char where
  "quote = CHR 0x27"

definition line :: "nat \<Rightarrow> string \<Rightarrow> string" where
  "line n s = replicate n (CHR 0x09) @ s @ [CHR 0x0A]"

text \<open>The template literal of lines 23-33, character by character.\<close>

definition select_sql :: string where
  "select_sql =
     [CHR 0x0A] @
     line 2 ''SELECT'' @
     line 3 ''P.ID AS PERSON_ID,'' @
     line 3 ''P.NAME AS PERSON_NAME,'' @
     line 3 ''P.AVATAR_URL,'' @
     line 3 ''D.ID AS DEPARTMENT_ID,'' @
     line 3 ''D.NAME AS DEPARTMENT_NAME'' @
     line 2 ''FROM PEOPLE P'' @
     line 2 ''INNER JOIN DEPARTMENTS D'' @
     line 2 ''ON P.DEPARTMENT_ID = D.ID'' @
     [CHR 0x09]"

text \<open>\<^verbatim>\<open>query.search || ''\<close>: an array is truthy, even an empty one.\<close>

definition searchParam_of :: "query_value option \<Rightarrow> query_value" where
  "searchParam_of search =
     (case search of
        None \<Rightarrow> Str []
      | Some (Str s) \<Rightarrow> (if s = [] then Str [] else Str s)
      | Some (Arr xs) \<Rightarrow> Arr xs)"

fun join_comma :: "string list \<Rightarrow> string" where
  "join_comma [] = []"
| "join_comma [x] = x"
| "join_comma (x # y # ys) = x @ '','' @ join_comma (y # ys)"

text \<open>The interpolation \<^verbatim>\<open>${searchParam}\<close>: an array is joined with commas.\<close>

definition interpolate :: "query_value \<Rightarrow> string" where
  "interpolate v = (case v of Str s \<Rightarrow> s | Arr xs \<Rightarrow> join_comma xs)"

definition where_like :: "string \<Rightarrow> string" where
  "where_like s = '' WHERE P.NAME LIKE '' @ [quote] @ ''%'' @ s @ ''%'' @ [quote]"

definition sql_of :: "query_value \<Rightarrow> string" where
  "sql_of searchParam =
     (if searchParam \<noteq> Str [] then select_sql @ where_like (interpolate searchParam)
      else select_sql)"

subsection \<open>The engine\<close>

text \<open>
  SQLite's \<^verbatim>\<open>LIKE\<close> with its defaults: \<^verbatim>\<open>%\<close> matches any run of characters,
  \<^verbatim>\<open>_\<close> any one character, every other character itself, the letters A-Z and a-z
  without regard to case. There is no escape character. SQLite compares characters
  (code points), not the bytes of their encoding: a \<open>char\<close> of a name or of a search
  value stands for one character, so that the texts covered are those of the first
  256 code points.
\<close>

definition lower_ascii :: "char \<Rightarrow> char" where
  "lower_ascii c =
     (if (65::nat) \<le> of_char c \<and> of_char c \<le> (90::nat)
      then char_of (of_char c + (32::nat)) else c)"

fun like_match :: "string \<Rightarrow> string \<Rightarrow> bool" where
  "like_match [] t = (t = [])"
| "like_match (p # ps) [] = (p = CHR ''%'' \<and> like_match ps [])"
| "like_match (p # ps) (c # cs) =
     (if p = CHR ''%'' then like_match ps (c # cs) \<or> like_match (p # ps) cs
      else if p = CHR ''_'' then like_match ps cs
      else lower_ascii p = lower_ascii c \<and> like_match ps cs)"

record joined_row =
  PERSON_ID :: string
  PERSON_NAME :: string
  AVATAR_URL :: "string option"
  DEPARTMENT_ID :: string
  DEPARTMENT_NAME :: string

definition join_row :: "person_row \<Rightarrow> department_row \<Rightarrow> joined_row" where
  "join_row p d =
     \<lparr> PERSON_ID = P_ID p, PERSON_NAME = P_NAME p, AVATAR_URL = P_AVATAR_URL p,
       DEPARTMENT_ID = D_ID d, DEPARTMENT_NAME = D_NAME d \<rparr>"

text \<open>
  \<^verbatim>\<open>LIKE\<close> reads the pattern and the text up to their first NUL: what a stored name
  holds after a NUL is never compared.
\<close>

definition until_nul :: "string \<Rightarrow> string" where
  "until_nul t = takeWhile (\<lambda>c. c \<noteq> CHR 0x00) t"

definition sql_like :: "string \<Rightarrow> string \<Rightarrow> bool" where
  "sql_like pattern t = like_match (until_nul pattern) (until_nul t)"

definition name_matches :: "string option \<Rightarrow> person_row \<Rightarrow> bool" where
  "name_matches pattern p =
     (case pattern of None \<Rightarrow> True | Some pat \<Rightarrow> sql_like pat (P_NAME p))"

text \<open>
  The rows of \<^verbatim>\<open>PEOPLE P INNER JOIN DEPARTMENTS D ON P.DEPARTMENT_ID = D.ID\<close>, with
  or without \<^verbatim>\<open>WHERE P.NAME LIKE pattern\<close>. The query has no \<^verbatim>\<open>ORDER BY\<close>; the rows
  are listed in the order of a scan of \<^verbatim>\<open>PEOPLE\<close>.
\<close>

definition select_rows :: "database \<Rightarrow> string option \<Rightarrow> joined_row list" where
  "select_rows db pattern =
     concat (map (\<lambda>p. map (join_row p)
                        (filter (\<lambda>d. P_DEPARTMENT_ID p = D_ID d) (DEPARTMENTS db)))
                 (filter (name_matches pattern) (PEOPLE db)))"

fun strip_prefix :: "'a list \<Rightarrow> 'a list \<Rightarrow> 'a list option" where
  "strip_prefix [] ys = Some ys"
| "strip_prefix (x # xs) [] = None"
| "strip_prefix (x # xs) (y # ys) = (if x = y then strip_prefix xs ys else None)"

text \<open>
  A string literal that ends the text: a quote, a body without quote and without NUL
  (where SQLite stops reading the text), a quote.
\<close>

definition closing_literal :: "string \<Rightarrow> string option" where
  "closing_literal t =
     (case t of
        [] \<Rightarrow> None
      | c # cs \<Rightarrow>
          if c = quote \<and> cs \<noteq> [] \<and> last cs = quote
             \<and> quote \<notin> set (butlast cs) \<and> CHR 0x00 \<notin> set (butlast cs)
          then Some (butlast cs) else None)"

text \<open>
  The texts the engine is modelled on: the \<^verbatim>\<open>SELECT\<close> alone, and the \<^verbatim>\<open>SELECT\<close>
  followed by \<^verbatim>\<open>WHERE P.NAME LIKE\<close> and one closing literal. Any other text (a search
  value with a quote in it makes one) is \<open>Outside\<close>: what SQLite does with it is left to
  the environment.
\<close>

datatype parsed = Outside | Query "string option"

definition parse_sql :: "string \<Rightarrow> parsed" where
  "parse_sql sql =
     (case strip_prefix select_sql sql of
        None \<Rightarrow> Outside
      | Some rest \<Rightarrow>
          if rest = [] then Query None
          else (case strip_prefix '' WHERE P.NAME LIKE '' rest of
                  None \<Rightarrow> Outside
                | Some lit \<Rightarrow>
                    (case closing_literal lit of
                       None \<Rightarrow> Outside
                     | Some pattern \<Rightarrow> Query (Some pattern))))"

datatype statement = Select "string option" | Foreign "error + joined_row list"

text \<open>
  A failure of the engine that the data does not explain (\<^verbatim>\<open>SQLITE_BUSY\<close>, an I/O
  error): it meets either \<^verbatim>\<open>prepare\<close>, which reads the schema, or \<^verbatim>\<open>all()\<close>.
\<close>

datatype fault = PrepareFault error | AllFault error

text \<open>
  The environment of one request: the database file, a failure of the engine, if any,
  and what SQLite does with a text outside the modelled ones: \<open>Inl\<close> when
  \<^verbatim>\<open>prepare\<close> throws, else the outcome of \<^verbatim>\<open>all()\<close>.
\<close>

record environment =
  env_file :: database_file
  env_fault :: "fault option"
  env_outside :: "string \<Rightarrow> error + (error + joined_row list)"

text \<open>\<^verbatim>\<open>db.prepare(sql)\<close>: compiling the text needs the tables it names.\<close>

definition prepare :: "environment \<Rightarrow> string \<Rightarrow> error + statement" where
  "prepare env sql =
     (case parse_sql sql of
        Outside \<Rightarrow>
          (case env_outside env sql of Inl e \<Rightarrow> Inl e | Inr r \<Rightarrow> Inr (Foreign r))
      | Query pattern \<Rightarrow>
          (case env_fault env of
             Some (PrepareFault e) \<Rightarrow> Inl e
           | _ \<Rightarrow>
               (case env_file env of
                  None \<Rightarrow> Inl (NoSuchTable ''PEOPLE'')
                | Some db \<Rightarrow> Inr (Select pattern))))"

text \<open>\<^verbatim>\<open>stmt.all()\<close>.\<close>

definition stmt_all :: "environment \<Rightarrow> statement \<Rightarrow> error + joined_row list" where
  "stmt_all env stmt =
     (case stmt of
        Foreign r \<Rightarrow> r
      | Select pattern \<Rightarrow>
          (case env_fault env of
             Some (AllFault e) \<Rightarrow> Inl e
           | _ \<Rightarrow>
               (case env_file env of
                  None \<Rightarrow> Inl (NoSuchTable ''PEOPLE'')
                | Some db \<Rightarrow> Inr (select_rows db pattern))))"

subsection \<open>handler\<close>

definition to_record :: "joined_row \<Rightarrow> person_record" where
  "to_record row =
     \<lparr> pr_id = PERSON_ID row,
       pr_name = PERSON_NAME row,
       pr_avatar = \<lparr> av_url = AVATAR_URL row \<rparr>,
       pr_department = \<lparr> dep_id = DEPARTMENT_ID row, dep_name = DEPARTMENT_NAME row \<rparr> \<rparr>"

text \<open>
  \<^verbatim>\<open>handler\<close> (lines 14-71). The connection is opened at line 21 and the statement is
  prepared at line 42, both before the \<^verbatim>\<open>try\<close> of line 46: an error of \<^verbatim>\<open>prepare\<close>
  leaves the function at once. Inside the \<^verbatim>\<open>try\<close>, an error of \<^verbatim>\<open>all()\<close> is logged,
  \<^verbatim>\<open>finally\<close> closes the connection, and line 70 answers.
\<close>

definition handler :: "environment \<Rightarrow> query_value option \<Rightarrow> handled" where
  "handler env search =
     (case prepare env (sql_of (searchParam_of search)) of
        Inl e \<Rightarrow>
          \<lparr> response = None, thrown = Some e, logged = [], connection_open = True \<rparr>
      | Inr stmt \<Rightarrow>
          (case stmt_all env stmt of
             Inr rows \<Rightarrow>
               \<lparr> response = Some \<lparr> status = 200,
                     results = (if length rows > 0 then map to_record rows else []) \<rparr>,
                 thrown = None, logged = [], connection_open = False \<rparr>
           | Inl e \<Rightarrow>
               \<lparr> response = Some \<lparr> status = 200, results = [] \<rparr>,
                 thrown = None, logged = [e], connection_open = False \<rparr>))"

section \<open>Substrings\<close>

text \<open>
  \<open>contains_ci s t\<close>: \<open>s\<close> occurs in \<open>t\<close> as a run of consecutive characters, the
  letters A-Z and a-z compared without regard to case.
\<close>

definition prefix_ci :: "string \<Rightarrow> string \<Rightarrow> bool" where
  "prefix_ci s t =
     (length s \<le> length t \<and> map lower_ascii (take (length s) t) = map lower_ascii s)"

fun contains_ci :: "string \<Rightarrow> string \<Rightarrow> bool" where
  "contains_ci s [] = (s = [])"
| "contains_ci s (c # cs) = (prefix_ci s (c # cs) \<or> contains_ci s cs)"

section \<open>Dangling parents\<close>

text \<open>
  \<open>dangling rows xs\<close>: how many rows of \<open>xs\<close> have a \<^verbatim>\<open>PARENT\<close> that is not the
  \<^verbatim>\<open>ID\<close> of a row of the table \<open>rows\<close>.
\<close>

definition dangling :: "department_row list \<Rightarrow> department_row list \<Rightarrow> nat" where
  "dangling rows xs = length (filter (\<lambda>r. \<not> parent_exists rows r) xs)"

section \<open>Properties of the Loader\<close>

lemma dangling_zero: "dangling rows xs = 0 \<longleftrightarrow> list_all (parent_exists rows) xs"
  by (induction xs) (auto simp: dangling_def)

lemma dangling_append: "dangling rows (xs @ ys) = dangling rows xs + dangling rows ys"
  by (simp add: dangling_def)

lemma children_of_append:
  "children_of (xs @ ys) x = children_of xs x + children_of ys x"
  by (simp add: children_of_def)

lemma dangling_gains_parent:
  assumes "x \<notin> set (map D_ID rows)" and "D_ID row = x"
  shows "dangling (rows @ [row]) xs + children_of xs x = dangling rows xs"
proof (induction xs)
  case Nil
  show ?case by (simp add: dangling_def children_of_def)
next
  case (Cons r xs)
  have "(if parent_exists (rows @ [row]) r then 0 else 1) + (if D_PARENT r = Some x then 1 else 0)
      = (if parent_exists rows r then 0 else (1::nat))"
    using assms by (cases "D_PARENT r") (auto simp: parent_exists_def)
  with Cons show ?case
    by (auto simp: dangling_def children_of_def split: if_splits)
qed

lemma dangling_new_row:
  "dangling (rows @ [department_row_of p]) [department_row_of p]
     = (if missing_parent rows p then 1 else 0)"
  by (auto simp: dangling_def parent_exists_def missing_parent_def department_row_of_def
      split: option.splits)

lemma deferred_after_exact:
  assumes fresh: "dp_id p \<notin> set (map D_ID rows)"
    and n: "n = int (dangling rows rows)"
  shows "deferred_after rows n p
     = int (dangling (rows @ [department_row_of p]) (rows @ [department_row_of p]))"
proof -
  let ?row = "department_row_of p"
  let ?inc = "if missing_parent rows p then 1 else (0::nat)"
  have id: "D_ID ?row = dp_id p" by (simp add: department_row_of_def)
  have old: "dangling (rows @ [?row]) rows + children_of rows (dp_id p) = dangling rows rows"
    using fresh id by (rule dangling_gains_parent)
  have new: "dangling (rows @ [?row]) (rows @ [?row]) = dangling (rows @ [?row]) rows + ?inc"
    by (simp only: dangling_append dangling_new_row)
  show ?thesis
    using old new n by (auto simp: deferred_after_def Let_def)
qed

lemma deferred_after_upper:
  assumes fresh: "dp_id p \<notin> set (map D_ID (old @ new))"
    and n: "n \<le> int (dangling (old @ new) new)"
  shows "deferred_after (old @ new) n p
     \<le> int (dangling (old @ new @ [department_row_of p]) (new @ [department_row_of p]))"
proof -
  let ?row = "department_row_of p"
  let ?rows = "old @ new"
  let ?inc = "if missing_parent ?rows p then 1 else (0::nat)"
  have id: "D_ID ?row = dp_id p" by (simp add: department_row_of_def)
  have "dangling (?rows @ [?row]) new + children_of new (dp_id p) = dangling ?rows new"
    using fresh id by (rule dangling_gains_parent)
  moreover have "dangling (?rows @ [?row]) (new @ [?row]) = dangling (?rows @ [?row]) new + ?inc"
    by (simp only: dangling_append dangling_new_row)
  moreover have "children_of ?rows (dp_id p) = children_of old (dp_id p) + children_of new (dp_id p)"
    by (rule children_of_append)
  ultimately show ?thesis
    using n by (auto simp: deferred_after_def Let_def)
qed

lemma insertDepartmentRow_Inr:
  "insertDepartmentRow (db, n) p = Inr s \<longleftrightarrow>
     dp_id p \<notin> set (map D_ID (DEPARTMENTS db))
     \<and> s = (db \<lparr> DEPARTMENTS := DEPARTMENTS db @ [department_row_of p] \<rparr>,
            deferred_after (DEPARTMENTS db) n p)"
  by (auto simp: insertDepartmentRow_def)

lemma insertDepartmentRow_Inl:
  "insertDepartmentRow (db, n) p = Inl e \<longleftrightarrow>
     dp_id p \<in> set (map D_ID (DEPARTMENTS db)) \<and> e = PrimaryKeyConstraint ''DEPARTMENTS.ID''"
  by (auto simp: insertDepartmentRow_def)

lemma department_row_id: "D_ID (department_row_of p) = dp_id p"
  by (simp add: department_row_of_def)

lemma run_each_departments_append:
  "run_each insertDepartmentRow (db, n) ps = (None, (db', n')) \<Longrightarrow>
     DEPARTMENTS db' = DEPARTMENTS db @ map department_row_of ps \<and> PEOPLE db' = PEOPLE db"
proof (induction ps arbitrary: db n)
  case Nil
  then show ?case by simp
next
  case (Cons p ps)
  from Cons.prems obtain s where s: "insertDepartmentRow (db, n) p = Inr s"
    and rest: "run_each insertDepartmentRow s ps = (None, (db', n'))"
    by (auto split: sum.splits)
  from s have "s = (db \<lparr> DEPARTMENTS := DEPARTMENTS db @ [department_row_of p] \<rparr>,
            deferred_after (DEPARTMENTS db) n p)"
    by (simp add: insertDepartmentRow_Inr)
  with rest Cons.IH show ?case by fastforce
qed

lemma run_each_departments_fresh:
  assumes "distinct (map dp_id ps)"
    and "set (map dp_id ps) \<inter> set (map D_ID (DEPARTMENTS db)) = {}"
  shows "\<exists>n'. run_each insertDepartmentRow (db, n) ps
     = (None, (db \<lparr> DEPARTMENTS := DEPARTMENTS db @ map department_row_of ps \<rparr>, n'))"
  using assms
proof (induction ps arbitrary: db n)
  case Nil
  then show ?case by simp
next
  case (Cons p ps)
  let ?db1 = "db \<lparr> DEPARTMENTS := DEPARTMENTS db @ [department_row_of p] \<rparr>"
  from Cons.prems have fresh: "dp_id p \<notin> set (map D_ID (DEPARTMENTS db))" by auto
  then have step: "insertDepartmentRow (db, n) p = Inr (?db1, deferred_after (DEPARTMENTS db) n p)"
    by (simp add: insertDepartmentRow_Inr)
  have "distinct (map dp_id ps)" using Cons.prems by simp
  moreover have "set (map dp_id ps) \<inter> set (map D_ID (DEPARTMENTS ?db1)) = {}"
    using Cons.prems by (auto simp: department_row_id)
  ultimately obtain n' where "run_each insertDepartmentRow (?db1, deferred_after (DEPARTMENTS db) n p) ps
     = (None, (?db1 \<lparr> DEPARTMENTS := DEPARTMENTS ?db1 @ map department_row_of ps \<rparr>, n'))"
    using Cons.IH by blast
  with step show ?case by simp
qed

lemma run_each_departments_clash:
  assumes "\<not> (distinct (map dp_id ps)
               \<and> set (map dp_id ps) \<inter> set (map D_ID (DEPARTMENTS db)) = {})"
  shows "\<exists>s. run_each insertDepartmentRow (db, n) ps
     = (Some (PrimaryKeyConstraint ''DEPARTMENTS.ID''), s)"
  using assms
proof (induction ps arbitrary: db n)
  case Nil
  then show ?case by simp
next
  case (Cons p ps)
  show ?case
  proof (cases "dp_id p \<in> set (map D_ID (DEPARTMENTS db))")
    case True
    then show ?thesis by (simp add: insertDepartmentRow_def)
  next
    case False
    let ?db1 = "db \<lparr> DEPARTMENTS := DEPARTMENTS db @ [department_row_of p] \<rparr>"
    from False have step: "insertDepartmentRow (db, n) p
        = Inr (?db1, deferred_after (DEPARTMENTS db) n p)"
      by (simp add: insertDepartmentRow_Inr)
    have "\<not> (distinct (map dp_id ps)
               \<and> set (map dp_id ps) \<inter> set (map D_ID (DEPARTMENTS ?db1)) = {})"
      using Cons.prems False by (auto simp: department_row_id)
    from Cons.IH [OF this] step show ?thesis by simp
  qed
qed

lemma run_each_departments_exact:
  "run_each insertDepartmentRow (db, n) ps = (None, (db', n')) \<Longrightarrow>
     n = int (dangling (DEPARTMENTS db) (DEPARTMENTS db)) \<Longrightarrow>
     n' = int (dangling (DEPARTMENTS db') (DEPARTMENTS db'))"
proof (induction ps arbitrary: db n)
  case Nil
  then show ?case by auto
next
  case (Cons p ps)
  let ?db1 = "db \<lparr> DEPARTMENTS := DEPARTMENTS db @ [department_row_of p] \<rparr>"
  let ?n1 = "deferred_after (DEPARTMENTS db) n p"
  from Cons.prems(1) obtain s where s: "insertDepartmentRow (db, n) p = Inr s"
    and rest: "run_each insertDepartmentRow s ps = (None, (db', n'))"
    by (auto split: sum.splits)
  from s have fresh: "dp_id p \<notin> set (map D_ID (DEPARTMENTS db))" and s': "s = (?db1, ?n1)"
    by (simp_all add: insertDepartmentRow_Inr)
  have "?n1 = int (dangling (DEPARTMENTS ?db1) (DEPARTMENTS ?db1))"
    using deferred_after_exact [OF fresh Cons.prems(2)] by simp
  with Cons.IH rest s' show ?case by blast
qed

lemma run_each_departments_upper:
  "run_each insertDepartmentRow (db, n) ps = (None, (db', n')) \<Longrightarrow>
     DEPARTMENTS db = old @ new \<Longrightarrow>
     n \<le> int (dangling (DEPARTMENTS db) new) \<Longrightarrow>
     n' \<le> int (dangling (DEPARTMENTS db') (new @ map department_row_of ps))"
proof (induction ps arbitrary: db n new)
  case Nil
  then show ?case by simp
next
  case (Cons p ps)
  let ?db1 = "db \<lparr> DEPARTMENTS := DEPARTMENTS db @ [department_row_of p] \<rparr>"
  let ?n1 = "deferred_after (DEPARTMENTS db) n p"
  from Cons.prems(1) obtain s where s: "insertDepartmentRow (db, n) p = Inr s"
    and rest: "run_each insertDepartmentRow s ps = (None, (db', n'))"
    by (auto split: sum.splits)
  from s have fresh: "dp_id p \<notin> set (map D_ID (DEPARTMENTS db))" and s': "s = (?db1, ?n1)"
    by (simp_all add: insertDepartmentRow_Inr)
  have tab: "DEPARTMENTS ?db1 = old @ (new @ [department_row_of p])"
    using Cons.prems(2) by simp
  have "?n1 \<le> int (dangling (DEPARTMENTS ?db1) (new @ [department_row_of p]))"
    using deferred_after_upper [of p old new n] fresh Cons.prems(2,3) by simp
  from Cons.IH [OF rest [unfolded s'] tab this] show ?case by simp
qed

lemma insertDepartments_result:
  "insertDepartments db ps =
     (case run_each insertDepartmentRow (db, 0) ps of
        (Some e, s) \<Rightarrow> (Some e, db)
      | (None, (db', n)) \<Rightarrow>
          if 0 < n then (Some ForeignKeyConstraint, db) else (None, db'))"
  by (simp add: insertDepartments_def transaction_def)

text \<open>
  Claim C4. The departments of the feed are inserted in one transaction. Whatever the
  database, either it commits and the table is the table before followed by one row per
  department of the feed, in the order of the feed, or it throws and the database is
  the database before the transaction. It commits with every row when the identifiers
  of the feed are distinct and new to the table and every row of the feed has its
  parent in the table at the end. It throws on the primary key, and leaves the database
  as it was, when an identifier of the feed is repeated or is in the table already. On a
  table without dangling parent it throws on the foreign key, and leaves the database as
  it was, when no insert fails and the table at the end would have a dangling parent.
\<close>

theorem insertDepartments_atomic:
  assumes rows: "rows = map (\<lambda>d. department_row_of (department_params_of d)) departments"
    and table: "table = DEPARTMENTS db @ rows"
    and ids: "fresh = (distinct (map dn_id departments)
                \<and> set (map dn_id departments) \<inter> set (map D_ID (DEPARTMENTS db)) = {})"
  shows "(case insertDepartments db (map department_params_of departments) of
            (None, db') \<Rightarrow> DEPARTMENTS db' = table \<and> PEOPLE db' = PEOPLE db
          | (Some e, db') \<Rightarrow> db' = db)
       \<and> (fresh \<and> list_all (parent_exists table) rows \<longrightarrow>
            insertDepartments db (map department_params_of departments)
              = (None, db \<lparr> DEPARTMENTS := table \<rparr>))
       \<and> (\<not> fresh \<longrightarrow>
            insertDepartments db (map department_params_of departments)
              = (Some (PrimaryKeyConstraint ''DEPARTMENTS.ID''), db))
       \<and> (fresh \<and> list_all (parent_exists (DEPARTMENTS db)) (DEPARTMENTS db)
            \<and> \<not> list_all (parent_exists table) table \<longrightarrow>
            insertDepartments db (map department_params_of departments)
              = (Some ForeignKeyConstraint, db))"
proof -
  let ?ps = "map department_params_of departments"
  have rows': "rows = map department_row_of ?ps" using rows by (simp add: comp_def)
  have ids': "fresh = (distinct (map dp_id ?ps)
                \<and> set (map dp_id ?ps) \<inter> set (map D_ID (DEPARTMENTS db)) = {})"
    using ids by (simp add: comp_def department_params_of_def)
  have atomic: "(case insertDepartments db ?ps of
            (None, db') \<Rightarrow> DEPARTMENTS db' = table \<and> PEOPLE db' = PEOPLE db
          | (Some e, db') \<Rightarrow> db' = db)"
  proof -
    obtain r db1 n1 where run: "run_each insertDepartmentRow (db, 0) ?ps = (r, (db1, n1))"
      by (metis surj_pair)
    show ?thesis
    proof (cases r)
      case None
      with run run_each_departments_append [of db 0 ?ps db1 n1] show ?thesis
        by (simp add: insertDepartments_result table rows')
    next
      case (Some e)
      with run show ?thesis by (simp add: insertDepartments_result)
    qed
  qed
  have commits: "insertDepartments db ?ps = (None, db \<lparr> DEPARTMENTS := table \<rparr>)"
    if "fresh" "list_all (parent_exists table) rows"
  proof -
    from that(1) ids' obtain n' where run: "run_each insertDepartmentRow (db, 0) ?ps
        = (None, (db \<lparr> DEPARTMENTS := table \<rparr>, n'))"
      using run_each_departments_fresh [of ?ps db 0] by (auto simp: table rows')
    from run_each_departments_upper [OF run, of "DEPARTMENTS db" "[]"]
    have "n' \<le> int (dangling table rows)" by (simp add: dangling_def rows')
    moreover have "dangling table rows = 0" using that(2) by (simp add: dangling_zero)
    ultimately have "\<not> 0 < n'" by simp
    with run show ?thesis by (simp add: insertDepartments_result)
  qed
  have clash: "insertDepartments db ?ps = (Some (PrimaryKeyConstraint ''DEPARTMENTS.ID''), db)"
    if "\<not> fresh"
    using that ids' run_each_departments_clash [of ?ps db 0]
    by (auto simp: insertDepartments_result)
  have deferred: "insertDepartments db ?ps = (Some ForeignKeyConstraint, db)"
    if "fresh" "list_all (parent_exists (DEPARTMENTS db)) (DEPARTMENTS db)"
      "\<not> list_all (parent_exists table) table"
  proof -
    from that(1) ids' obtain n' where run: "run_each insertDepartmentRow (db, 0) ?ps
        = (None, (db \<lparr> DEPARTMENTS := table \<rparr>, n'))"
      using run_each_departments_fresh [of ?ps db 0] by (auto simp: table rows')
    have "(0::int) = int (dangling (DEPARTMENTS db) (DEPARTMENTS db))"
      using that(2) by (simp add: dangling_zero)
    from run_each_departments_exact [OF run this]
    have "n' = int (dangling table table)" by simp
    moreover have "dangling table table \<noteq> 0" using that(3) by (simp add: dangling_zero)
    ultimately have "0 < n'" by simp
    with run show ?thesis by (simp add: insertDepartments_result)
  qed
  from atomic commits clash deferred show ?thesis by blast
qed

text \<open>
  Sales comes before its parent Root in the feed and the transaction commits with both
  rows; Sales alone, its parent nowhere, is rolled back at commit.
\<close>

theorem insertDepartments_atomic_witness:
  "insertDepartments
     \<lparr> DEPARTMENTS = [\<lparr> D_ID = ''d0'', D_NAME = ''Board'', D_PARENT = None \<rparr>], PEOPLE = [] \<rparr>
     (map department_params_of
        [\<lparr> dn_name = ''Sales'', dn_id = ''d2'',
           dn_parent = Some \<lparr> pn_name = ''Root'', pn_id = ''d1'' \<rparr> \<rparr>,
         \<lparr> dn_name = ''Root'', dn_id = ''d1'',
           dn_parent = Some \<lparr> pn_name = ''Board'', pn_id = ''d0'' \<rparr> \<rparr>])
   = (None,
      \<lparr> DEPARTMENTS = [\<lparr> D_ID = ''d0'', D_NAME = ''Board'', D_PARENT = None \<rparr>,
                       \<lparr> D_ID = ''d2'', D_NAME = ''Sales'', D_PARENT = Some ''d1'' \<rparr>,
                       \<lparr> D_ID = ''d1'', D_NAME = ''Root'', D_PARENT = Some ''d0'' \<rparr>],
        PEOPLE = [] \<rparr>)
   \<and> insertDepartments
     \<lparr> DEPARTMENTS = [\<lparr> D_ID = ''d0'', D_NAME = ''Board'', D_PARENT = None \<rparr>], PEOPLE = [] \<rparr>
     (map department_params_of
        [\<lparr> dn_name = ''Sales'', dn_id = ''d2'',
           dn_parent = Some \<lparr> pn_name = ''Root'', pn_id = ''d1'' \<rparr> \<rparr>])
   = (Some ForeignKeyConstraint,
      \<lparr> DEPARTMENTS = [\<lparr> D_ID = ''d0'', D_NAME = ''Board'', D_PARENT = None \<rparr>], PEOPLE = [] \<rparr>)"
proof -
  let ?db = "\<lparr> DEPARTMENTS = [\<lparr> D_ID = ''d0'', D_NAME = ''Board'', D_PARENT = None \<rparr>],
              PEOPLE = [] \<rparr>"
  let ?sales = "\<lparr> dn_name = ''Sales'', dn_id = ''d2'',
           dn_parent = Some \<lparr> pn_name = ''Root'', pn_id = ''d1'' \<rparr> \<rparr>"
  let ?root = "\<lparr> dn_name = ''Root'', dn_id = ''d1'',
           dn_parent = Some \<lparr> pn_name = ''Board'', pn_id = ''d0'' \<rparr> \<rparr>"
  let ?rows2 = "[\<lparr> D_ID = ''d2'', D_NAME = ''Sales'', D_PARENT = Some ''d1'' \<rparr>,
                 \<lparr> D_ID = ''d1'', D_NAME = ''Root'', D_PARENT = Some ''d0'' \<rparr>]"
  let ?rows1 = "[\<lparr> D_ID = ''d2'', D_NAME = ''Sales'', D_PARENT = Some ''d1'' \<rparr>]"
  have r2: "?rows2 = map (\<lambda>d. department_row_of (department_params_of d)) [?sales, ?root]"
    by (simp add: department_row_of_def department_params_of_def or_null_def)
  have r1: "?rows1 = map (\<lambda>d. department_row_of (department_params_of d)) [?sales]"
    by (simp add: department_row_of_def department_params_of_def or_null_def)
  have t2: "DEPARTMENTS ?db @ ?rows2 = DEPARTMENTS ?db @ ?rows2" by simp
  have t1: "DEPARTMENTS ?db @ ?rows1 = DEPARTMENTS ?db @ ?rows1" by simp
  have f2: "True = (distinct (map dn_id [?sales, ?root])
                \<and> set (map dn_id [?sales, ?root]) \<inter> set (map D_ID (DEPARTMENTS ?db)) = {})"
    by simp
  have f1: "True = (distinct (map dn_id [?sales])
                \<and> set (map dn_id [?sales]) \<inter> set (map D_ID (DEPARTMENTS ?db)) = {})"
    by simp
  have "list_all (parent_exists (DEPARTMENTS ?db @ ?rows2)) ?rows2"
    by (simp add: parent_exists_def)
  with insertDepartments_atomic [OF r2 t2 f2]
  have a: "insertDepartments ?db (map department_params_of [?sales, ?root])
      = (None, ?db \<lparr> DEPARTMENTS := DEPARTMENTS ?db @ ?rows2 \<rparr>)"
    by blast
  have "list_all (parent_exists (DEPARTMENTS ?db)) (DEPARTMENTS ?db)"
    "\<not> list_all (parent_exists (DEPARTMENTS ?db @ ?rows1)) (DEPARTMENTS ?db @ ?rows1)"
    by (simp_all add: parent_exists_def)
  with insertDepartments_atomic [OF r1 t1 f1]
  have b: "insertDepartments ?db (map department_params_of [?sales])
      = (Some ForeignKeyConstraint, ?db)"
    by blast
  from a b show ?thesis by simp
qed

text \<open>
  Claim C3. On a table without dangling parent, when the departments transaction
  commits, every department of the feed that has a parent identifier is stored with it,
  and that identifier is the \<^verbatim>\<open>ID\<close> of a row of \<^verbatim>\<open>DEPARTMENTS\<close>; so is every non-null
  \<^verbatim>\<open>PARENT\<close> of the table. A parent whose identifier is the empty string is stored as
  \<^verbatim>\<open>NULL\<close> and refers to nothing. The first hypothesis is met by the empty table of a
  new file and, by this very theorem, by the table every commit of the Loader leaves.
\<close>

theorem parents_exist_after_commit:
  assumes clean: "list_all (parent_exists (DEPARTMENTS db)) (DEPARTMENTS db)"
    and commit: "insertDepartments db (map department_params_of departments) = (None, db')"
    and dep: "department \<in> set departments"
    and par: "dn_parent department = Some parent"
    and nonempty: "pn_id parent \<noteq> []"
  shows "\<lparr> D_ID = dn_id department, D_NAME = dn_name department,
           D_PARENT = Some (pn_id parent) \<rparr> \<in> set (DEPARTMENTS db')
         \<and> pn_id parent \<in> set (map D_ID (DEPARTMENTS db'))
         \<and> list_all (parent_exists (DEPARTMENTS db')) (DEPARTMENTS db')"
proof -
  let ?ps = "map department_params_of departments"
  obtain r s where run: "run_each insertDepartmentRow (db, 0) ?ps = (r, s)"
    by (cases "run_each insertDepartmentRow (db, 0) ?ps")
  obtain db1 n' where s: "s = (db1, n')" by (cases s)
  from commit run s have r: "r = None" and eq: "db1 = db'" and low: "\<not> 0 < n'"
    by (auto simp: insertDepartments_result split: option.splits if_splits)
  from run r s eq have run': "run_each insertDepartmentRow (db, 0) ?ps = (None, (db', n'))"
    by simp
  have rows: "DEPARTMENTS db' = DEPARTMENTS db @ map department_row_of ?ps"
    using run_each_departments_append [OF run'] by simp
  have "(0::int) = int (dangling (DEPARTMENTS db) (DEPARTMENTS db))"
    using clean by (simp add: dangling_zero)
  from run_each_departments_exact [OF run' this] low
  have "dangling (DEPARTMENTS db') (DEPARTMENTS db') = 0" by simp
  then have all: "list_all (parent_exists (DEPARTMENTS db')) (DEPARTMENTS db')"
    by (simp add: dangling_zero)
  let ?row = "\<lparr> D_ID = dn_id department, D_NAME = dn_name department,
           D_PARENT = Some (pn_id parent) \<rparr>"
  have "department_row_of (department_params_of department) = ?row"
    using par nonempty by (simp add: department_row_of_def department_params_of_def or_null_def)
  with dep rows have mem: "?row \<in> set (DEPARTMENTS db')"
    by (metis (no_types, lifting) UnCI image_eqI list.set_map set_append)
  with all have "parent_exists (DEPARTMENTS db') ?row"
    by (simp add: list_all_iff)
  then have "pn_id parent \<in> set (map D_ID (DEPARTMENTS db'))"
    by (simp add: parent_exists_def)
  with mem all show ?thesis by blast
qed

lemma insertDepartments_example:
  "insertDepartments \<lparr> DEPARTMENTS = [], PEOPLE = [] \<rparr>
     (map department_params_of
        [\<lparr> dn_name = ''Sales'', dn_id = ''d2'',
           dn_parent = Some \<lparr> pn_name = ''Root'', pn_id = ''d1'' \<rparr> \<rparr>,
         \<lparr> dn_name = ''Root'', dn_id = ''d1'', dn_parent = None \<rparr>])
   = (None, \<lparr> DEPARTMENTS =
        [\<lparr> D_ID = ''d2'', D_NAME = ''Sales'', D_PARENT = Some ''d1'' \<rparr>,
         \<lparr> D_ID = ''d1'', D_NAME = ''Root'', D_PARENT = None \<rparr>], PEOPLE = [] \<rparr>)"
  by (simp add: insertDepartments_result insertDepartmentRow_def deferred_after_def
      missing_parent_def children_of_def department_params_of_def department_row_of_def
      or_null_def)

text \<open>The child comes first in the feed, the parent second: the transaction commits.\<close>

theorem parents_exist_after_commit_witness:
  "insertDepartments \<lparr> DEPARTMENTS = [], PEOPLE = [] \<rparr>
     (map department_params_of
        [\<lparr> dn_name = ''Sales'', dn_id = ''d2'',
           dn_parent = Some \<lparr> pn_name = ''Root'', pn_id = ''d1'' \<rparr> \<rparr>,
         \<lparr> dn_name = ''Root'', dn_id = ''d1'', dn_parent = None \<rparr>])
   = (None, \<lparr> DEPARTMENTS =
        [\<lparr> D_ID = ''d2'', D_NAME = ''Sales'', D_PARENT = Some ''d1'' \<rparr>,
         \<lparr> D_ID = ''d1'', D_NAME = ''Root'', D_PARENT = None \<rparr>], PEOPLE = [] \<rparr>)
   \<and> ''d1'' \<in> set (map D_ID
        [\<lparr> D_ID = ''d2'', D_NAME = ''Sales'', D_PARENT = Some ''d1'' \<rparr>,
         \<lparr> D_ID = ''d1'', D_NAME = ''Root'', D_PARENT = None \<rparr>])"
proof -
  have run: "insertDepartments \<lparr> DEPARTMENTS = [], PEOPLE = [] \<rparr>
     (map department_params_of
        [\<lparr> dn_name = ''Sales'', dn_id = ''d2'',
           dn_parent = Some \<lparr> pn_name = ''Root'', pn_id = ''d1'' \<rparr> \<rparr>,
         \<lparr> dn_name = ''Root'', dn_id = ''d1'', dn_parent = None \<rparr>])
   = (None, \<lparr> DEPARTMENTS =
        [\<lparr> D_ID = ''d2'', D_NAME = ''Sales'', D_PARENT = Some ''d1'' \<rparr>,
         \<lparr> D_ID = ''d1'', D_NAME = ''Root'', D_PARENT = None \<rparr>], PEOPLE = [] \<rparr>)"
    by (rule insertDepartments_example)
  have clean: "list_all (parent_exists (DEPARTMENTS \<lparr> DEPARTMENTS = [], PEOPLE = [] \<rparr>))
      (DEPARTMENTS \<lparr> DEPARTMENTS = [], PEOPLE = [] \<rparr>)"
    by simp
  from parents_exist_after_commit [OF clean run, of "\<lparr> dn_name = ''Sales'', dn_id = ''d2'',
           dn_parent = Some \<lparr> pn_name = ''Root'', pn_id = ''d1'' \<rparr> \<rparr>"
           "\<lparr> pn_name = ''Root'', pn_id = ''d1'' \<rparr>"]
  have "''d1'' \<in> set (map D_ID
        [\<lparr> D_ID = ''d2'', D_NAME = ''Sales'', D_PARENT = Some ''d1'' \<rparr>,
         \<lparr> D_ID = ''d1'', D_NAME = ''Root'', D_PARENT = None \<rparr>])"
    by simp
  with run show ?thesis by blast
qed

text \<open>
  The first hypothesis is needed. On a table that already holds a row with a dangling
  parent (written with foreign keys off; the Loader writes none), SQLite counts only
  what the transaction does: the new row of d9 takes the old violation of d5 off the
  counter that the new row of d2 had raised, and the transaction commits with the
  parent d7 of d2 nowhere.
\<close>

lemma dangling_parent_committed:
  "insertDepartments
     \<lparr> DEPARTMENTS = [\<lparr> D_ID = ''d5'', D_NAME = ''Support'', D_PARENT = Some ''d9'' \<rparr>],
       PEOPLE = [] \<rparr>
     (map department_params_of
        [\<lparr> dn_name = ''Sales'', dn_id = ''d2'',
           dn_parent = Some \<lparr> pn_name = ''Field'', pn_id = ''d7'' \<rparr> \<rparr>,
         \<lparr> dn_name = ''Service'', dn_id = ''d9'', dn_parent = None \<rparr>])
   = (None,
      \<lparr> DEPARTMENTS = [\<lparr> D_ID = ''d5'', D_NAME = ''Support'', D_PARENT = Some ''d9'' \<rparr>,
                       \<lparr> D_ID = ''d2'', D_NAME = ''Sales'', D_PARENT = Some ''d7'' \<rparr>,
                       \<lparr> D_ID = ''d9'', D_NAME = ''Service'', D_PARENT = None \<rparr>],
        PEOPLE = [] \<rparr>)"
  by (simp add: insertDepartments_result insertDepartmentRow_def deferred_after_def
      missing_parent_def children_of_def department_params_of_def department_row_of_def
      or_null_def)

lemma run_each_without_deferred:
  "run_each (without_deferred stmt) (db, n) xs =
     (case run_each stmt db xs of (r, db') \<Rightarrow> (r, (db', n)))"
  by (induction xs arbitrary: db) (auto simp: without_deferred_def split: sum.splits)

lemma insertPeople_Some:
  "insertPeople db (Some ps) =
     (case run_each insertPersonRow db ps of
        (Some e, db') \<Rightarrow> (Some e, db)
      | (None, db') \<Rightarrow> (None, db'))"
  by (simp add: insertPeople_def transaction_def run_each_without_deferred
      split: prod.splits option.splits)

lemma insertPersonRow_Inr:
  "insertPersonRow db p = Inr db' \<Longrightarrow>
     \<exists>r. person_values db p = Inr r \<and> P_ID r \<notin> set (map P_ID (PEOPLE db))
        \<and> db' = db \<lparr> PEOPLE := PEOPLE db @ [r] \<rparr>"
  by (auto simp: insertPersonRow_def split: sum.splits if_splits)

lemma person_values_departments:
  "DEPARTMENTS db' = DEPARTMENTS db \<Longrightarrow> person_values db' p = person_values db p"
proof -
  assume "DEPARTMENTS db' = DEPARTMENTS db"
  then have "resolve_department db' = resolve_department db"
    by (simp add: resolve_department_def fun_eq_iff)
  then show ?thesis
    by (cases "pp_department_name p") (simp_all add: person_values_def)
qed

lemma run_each_people_append:
  "run_each insertPersonRow db ps = (None, db') \<Longrightarrow>
     \<exists>new. PEOPLE db' = PEOPLE db @ new \<and> DEPARTMENTS db' = DEPARTMENTS db
        \<and> map (person_values db) ps = map Inr new
        \<and> distinct (map P_ID new)
        \<and> set (map P_ID new) \<inter> set (map P_ID (PEOPLE db)) = {}"
proof (induction ps arbitrary: db)
  case Nil
  then show ?case by simp
next
  case (Cons p ps)
  from Cons.prems obtain db1 where step: "insertPersonRow db p = Inr db1"
    and rest: "run_each insertPersonRow db1 ps = (None, db')"
    by (auto split: sum.splits)
  from insertPersonRow_Inr [OF step] obtain r where r: "person_values db p = Inr r"
    "P_ID r \<notin> set (map P_ID (PEOPLE db))" "db1 = db \<lparr> PEOPLE := PEOPLE db @ [r] \<rparr>"
    by blast
  from Cons.IH [OF rest] obtain new where new: "PEOPLE db' = PEOPLE db1 @ new"
    "DEPARTMENTS db' = DEPARTMENTS db1" "map (person_values db1) ps = map Inr new"
    "distinct (map P_ID new)" "set (map P_ID new) \<inter> set (map P_ID (PEOPLE db1)) = {}"
    by blast
  have same: "person_values db1 = person_values db"
    using r(3) by (intro ext person_values_departments) simp
  have "PEOPLE db' = PEOPLE db @ (r # new)" using new(1) r(3) by simp
  moreover have "DEPARTMENTS db' = DEPARTMENTS db" using new(2) r(3) by simp
  moreover have "map (person_values db) (p # ps) = map Inr (r # new)"
    using new(3) r(1) same by simp
  moreover have "distinct (map P_ID (r # new))" using new(4,5) r(3) by auto
  moreover have "set (map P_ID (r # new)) \<inter> set (map P_ID (PEOPLE db)) = {}"
    using new(5) r(2,3) by auto
  ultimately show ?case by blast
qed

lemma run_each_people_fails:
  assumes "p \<in> set ps"
    and "\<And>db' :: database. DEPARTMENTS db' = DEPARTMENTS db \<Longrightarrow> \<exists>e. insertPersonRow db' p = Inl e"
  shows "\<exists>e db'. run_each insertPersonRow db ps = (Some e, db')"
  using assms
proof (induction ps arbitrary: db)
  case Nil
  then show ?case by simp
next
  case (Cons q qs)
  show ?case
  proof (cases "insertPersonRow db q")
    case (Inl e)
    then show ?thesis by simp
  next
    case (Inr db1)
    with Cons.prems have "q \<noteq> p" by fastforce
    with Cons.prems have mem: "p \<in> set qs" by simp
    from insertPersonRow_Inr [OF Inr] have d: "DEPARTMENTS db1 = DEPARTMENTS db" by auto
    have "\<exists>e db'. run_each insertPersonRow db1 qs = (Some e, db')"
    proof (rule Cons.IH [OF mem])
      fix db' :: database
      assume "DEPARTMENTS db' = DEPARTMENTS db1"
      with d Cons.prems(2) show "\<exists>e. insertPersonRow db' p = Inl e" by simp
    qed
    with Inr show ?thesis by simp
  qed
qed

lemma find_None_name:
  "n \<notin> set (map D_NAME ds) \<Longrightarrow> find (\<lambda>d. D_NAME d = n) ds = None"
  by (induction ds) auto

text \<open>
  Claim C8. A person of the feed whose department name is the \<^verbatim>\<open>NAME\<close> of no row of
  \<^verbatim>\<open>DEPARTMENTS\<close>: the insert of that person fails on the \<^verbatim>\<open>NOT NULL\<close> constraint of
  \<^verbatim>\<open>PEOPLE.DEPARTMENT_ID\<close>, and the people transaction throws and leaves the database as
  it was before it began, whoever else is in the batch.
\<close>

theorem unknown_department_aborts_people:
  assumes mem: "person \<in> set people"
    and dep: "ps_department person = Some dep"
    and unknown: "dr_name dep \<notin> set (map D_NAME (DEPARTMENTS db))"
  shows "insertPersonRow db (person_params_of person)
           = Inl (NotNullConstraint ''PEOPLE.DEPARTMENT_ID'')
         \<and> (\<exists>e. insertPeople db (Some (map person_params_of people)) = (Some e, db))"
proof -
  have fails: "insertPersonRow db' (person_params_of person)
           = Inl (NotNullConstraint ''PEOPLE.DEPARTMENT_ID'')"
    if "DEPARTMENTS db' = DEPARTMENTS db" for db'
    using that dep find_None_name [OF unknown]
    by (simp add: insertPersonRow_def person_values_def resolve_department_def
        person_params_of_def)
  have "person_params_of person \<in> set (map person_params_of people)" using mem by simp
  then have "\<exists>e db'. run_each insertPersonRow db (map person_params_of people) = (Some e, db')"
    by (rule run_each_people_fails) (simp add: fails)
  then have "\<exists>e. insertPeople db (Some (map person_params_of people)) = (Some e, db)"
    by (auto simp: insertPeople_Some)
  with fails [of db] show ?thesis by simp
qed

text \<open>Anna's department exists, Juan's does not: neither is stored.\<close>

theorem unknown_department_aborts_people_witness:
  "insertPeople
     \<lparr> DEPARTMENTS = [\<lparr> D_ID = ''d1'', D_NAME = ''Engineering'', D_PARENT = None \<rparr>],
       PEOPLE = [] \<rparr>
     (Some (map person_params_of
        [\<lparr> ps_id = ''p1'', ps_name = ''Anna'', ps_title = ''Engineer'', ps_avatar = None,
           ps_department = Some \<lparr> dr_name = ''Engineering'' \<rparr> \<rparr>,
         \<lparr> ps_id = ''p2'', ps_name = ''Juan'', ps_title = ''Writer'', ps_avatar = None,
           ps_department = Some \<lparr> dr_name = ''Marketing'' \<rparr> \<rparr>]))
   = (Some (NotNullConstraint ''PEOPLE.DEPARTMENT_ID''),
      \<lparr> DEPARTMENTS = [\<lparr> D_ID = ''d1'', D_NAME = ''Engineering'', D_PARENT = None \<rparr>],
        PEOPLE = [] \<rparr>)"
proof -
  let ?db = "\<lparr> DEPARTMENTS = [\<lparr> D_ID = ''d1'', D_NAME = ''Engineering'', D_PARENT = None \<rparr>],
       PEOPLE = [] \<rparr>"
  let ?juan = "\<lparr> ps_id = ''p2'', ps_name = ''Juan'', ps_title = ''Writer'', ps_avatar = None,
           ps_department = Some \<lparr> dr_name = ''Marketing'' \<rparr> \<rparr>"
  let ?people = "[\<lparr> ps_id = ''p1'', ps_name = ''Anna'', ps_title = ''Engineer'',
           ps_avatar = None, ps_department = Some \<lparr> dr_name = ''Engineering'' \<rparr> \<rparr>, ?juan]"
  have "?juan \<in> set ?people" by simp
  moreover have "ps_department ?juan = Some \<lparr> dr_name = ''Marketing'' \<rparr>" by simp
  moreover have "dr_name \<lparr> dr_name = ''Marketing'' \<rparr> \<notin> set (map D_NAME (DEPARTMENTS ?db))"
    by simp
  ultimately have "\<exists>e. insertPeople ?db (Some (map person_params_of ?people)) = (Some e, ?db)"
    using unknown_department_aborts_people [of ?juan ?people "\<lparr> dr_name = ''Marketing'' \<rparr>" ?db]
    by blast
  moreover have "fst (insertPeople ?db (Some (map person_params_of ?people)))
      = Some (NotNullConstraint ''PEOPLE.DEPARTMENT_ID'')"
    by (simp add: insertPeople_Some insertPersonRow_def person_values_def
        resolve_department_def person_params_of_def or_null_def)
  ultimately show ?thesis by auto
qed

text \<open>
  Claim C10. The null marker is \<^verbatim>\<open>||\<close>, which takes every falsy value. A department
  whose parent object has the empty string as id is bound with a \<^verbatim>\<open>NULL\<close> parent, and
  when its identifier is new the insert stores it with a \<^verbatim>\<open>NULL\<close> \<^verbatim>\<open>PARENT\<close>, a root.
  A person whose avatar object has the empty string as url is bound with a \<^verbatim>\<open>NULL\<close>
  avatar url, and when the identifier is new and the department name is found the insert
  stores the person with a \<^verbatim>\<open>NULL\<close> \<^verbatim>\<open>AVATAR_URL\<close>. No insert of either stores anything
  else.
\<close>

theorem falsy_values_stored_as_null:
  assumes "dn_parent department = Some parent" and "pn_id parent = []"
    and "ps_avatar person = Some avatar" and "an_url avatar = []"
  shows "dp_parent (department_params_of department) = None
       \<and> pp_avatar_url (person_params_of person) = None
       \<and> (\<forall>db n. dn_id department \<notin> set (map D_ID (DEPARTMENTS db)) \<longrightarrow>
             (\<exists>n'. insertDepartmentRow (db, n) (department_params_of department) =
                Inr (db \<lparr> DEPARTMENTS := DEPARTMENTS db @
                       [\<lparr> D_ID = dn_id department, D_NAME = dn_name department,
                          D_PARENT = None \<rparr>] \<rparr>, n')))
       \<and> (\<forall>db dep d. ps_department person = Some dep
               \<and> find (\<lambda>d. D_NAME d = dr_name dep) (DEPARTMENTS db) = Some d
               \<and> ps_id person \<notin> set (map P_ID (PEOPLE db)) \<longrightarrow>
             insertPersonRow db (person_params_of person) =
                Inr (db \<lparr> PEOPLE := PEOPLE db @
                       [\<lparr> P_ID = ps_id person, P_NAME = ps_name person,
                          P_AVATAR_URL = None, P_DEPARTMENT_ID = D_ID d \<rparr>] \<rparr>))
       \<and> (\<forall>db n db' n'. insertDepartmentRow (db, n) (department_params_of department)
               = Inr (db', n') \<longrightarrow>
             DEPARTMENTS db' = DEPARTMENTS db @
               [\<lparr> D_ID = dn_id department, D_NAME = dn_name department, D_PARENT = None \<rparr>])
       \<and> (\<forall>db db'. insertPersonRow db (person_params_of person) = Inr db' \<longrightarrow>
             (\<exists>department_id. PEOPLE db' = PEOPLE db @
               [\<lparr> P_ID = ps_id person, P_NAME = ps_name person, P_AVATAR_URL = None,
                  P_DEPARTMENT_ID = department_id \<rparr>]))"
proof -
  have d: "dp_parent (department_params_of department) = None"
    using assms(1,2) by (simp add: department_params_of_def or_null_def)
  have p: "pp_avatar_url (person_params_of person) = None"
    using assms(3,4) by (simp add: person_params_of_def or_null_def)
  have row: "department_row_of (department_params_of department)
      = \<lparr> D_ID = dn_id department, D_NAME = dn_name department, D_PARENT = None \<rparr>"
    using d by (simp add: department_row_of_def department_params_of_def)
  have a: "\<exists>n'. insertDepartmentRow (db, n) (department_params_of department) =
                Inr (db \<lparr> DEPARTMENTS := DEPARTMENTS db @
                       [\<lparr> D_ID = dn_id department, D_NAME = dn_name department,
                          D_PARENT = None \<rparr>] \<rparr>, n')"
    if "dn_id department \<notin> set (map D_ID (DEPARTMENTS db))" for db n
    using that row by (simp add: insertDepartmentRow_def department_params_of_def)
  have b: "insertPersonRow db (person_params_of person) =
                Inr (db \<lparr> PEOPLE := PEOPLE db @
                       [\<lparr> P_ID = ps_id person, P_NAME = ps_name person,
                          P_AVATAR_URL = None, P_DEPARTMENT_ID = D_ID d \<rparr>] \<rparr>)"
    if "ps_department person = Some dep"
      "find (\<lambda>d. D_NAME d = dr_name dep) (DEPARTMENTS db) = Some d"
      "ps_id person \<notin> set (map P_ID (PEOPLE db))" for db dep d
  proof -
    from that(2) have "d \<in> set (DEPARTMENTS db)" by (auto simp: find_Some_iff)
    then have "D_ID d \<in> set (map D_ID (DEPARTMENTS db))" by simp
    with that p show ?thesis
      by (simp add: insertPersonRow_def person_values_def resolve_department_def
          person_params_of_def)
  qed
  have c: "DEPARTMENTS db' = DEPARTMENTS db @
               [\<lparr> D_ID = dn_id department, D_NAME = dn_name department, D_PARENT = None \<rparr>]"
    if "insertDepartmentRow (db, n) (department_params_of department) = Inr (db', n')"
    for db n db' n'
    using that row by (auto simp: insertDepartmentRow_Inr)
  have e: "\<exists>department_id. PEOPLE db' = PEOPLE db @
               [\<lparr> P_ID = ps_id person, P_NAME = ps_name person, P_AVATAR_URL = None,
                  P_DEPARTMENT_ID = department_id \<rparr>]"
    if "insertPersonRow db (person_params_of person) = Inr db'" for db db'
    using insertPersonRow_Inr [OF that] p
    by (auto simp: person_values_def person_params_of_def split: option.splits)
  from d p a b c e show ?thesis by blast
qed

text \<open>
  Engineering arrives with a parent object whose id is empty and is stored as a root;
  Anna arrives with an avatar object whose url is empty and is stored without avatar.
\<close>

theorem falsy_values_stored_as_null_witness:
  "(\<exists>n'. insertDepartmentRow (\<lparr> DEPARTMENTS = [], PEOPLE = [] \<rparr>, 0)
     (department_params_of \<lparr> dn_name = ''Engineering'', dn_id = ''d1'',
        dn_parent = Some \<lparr> pn_name = ''Nowhere'', pn_id = [] \<rparr> \<rparr>)
   = Inr (\<lparr> DEPARTMENTS = [\<lparr> D_ID = ''d1'', D_NAME = ''Engineering'', D_PARENT = None \<rparr>],
            PEOPLE = [] \<rparr>, n'))
   \<and> insertPersonRow
       \<lparr> DEPARTMENTS = [\<lparr> D_ID = ''d1'', D_NAME = ''Engineering'', D_PARENT = None \<rparr>],
         PEOPLE = [] \<rparr>
       (person_params_of
          \<lparr> ps_id = ''p1'', ps_name = ''Anna'', ps_title = ''Engineer'',
            ps_avatar = Some \<lparr> an_url = [] \<rparr>,
            ps_department = Some \<lparr> dr_name = ''Engineering'' \<rparr> \<rparr>)
     = Inr \<lparr> DEPARTMENTS = [\<lparr> D_ID = ''d1'', D_NAME = ''Engineering'', D_PARENT = None \<rparr>],
             PEOPLE = [\<lparr> P_ID = ''p1'', P_NAME = ''Anna'', P_AVATAR_URL = None,
                         P_DEPARTMENT_ID = ''d1'' \<rparr>] \<rparr>"
proof -
  let ?d = "\<lparr> dn_name = ''Engineering'', dn_id = ''d1'',
        dn_parent = Some \<lparr> pn_name = ''Nowhere'', pn_id = [] \<rparr> \<rparr>"
  let ?p = "\<lparr> ps_id = ''p1'', ps_name = ''Anna'', ps_title = ''Engineer'',
          ps_avatar = Some \<lparr> an_url = [] \<rparr>,
          ps_department = Some \<lparr> dr_name = ''Engineering'' \<rparr> \<rparr>"
  let ?row = "\<lparr> D_ID = ''d1'', D_NAME = ''Engineering'', D_PARENT = None \<rparr>"
  let ?db0 = "\<lparr> DEPARTMENTS = [], PEOPLE = [] \<rparr>"
  let ?db1 = "\<lparr> DEPARTMENTS = [?row], PEOPLE = [] \<rparr>"
  have h: "dn_parent ?d = Some \<lparr> pn_name = ''Nowhere'', pn_id = [] \<rparr>"
    "pn_id \<lparr> pn_name = ''Nowhere'', pn_id = [] \<rparr> = []"
    "ps_avatar ?p = Some \<lparr> an_url = [] \<rparr>" "an_url \<lparr> an_url = [] \<rparr> = []"
    by simp_all
  note inst = falsy_values_stored_as_null [OF h]
  have "dn_id ?d \<notin> set (map D_ID (DEPARTMENTS ?db0))" by simp
  with inst have "\<exists>n'. insertDepartmentRow (?db0, 0) (department_params_of ?d) =
      Inr (?db0 \<lparr> DEPARTMENTS := DEPARTMENTS ?db0 @
              [\<lparr> D_ID = dn_id ?d, D_NAME = dn_name ?d, D_PARENT = None \<rparr>] \<rparr>, n')"
    by blast
  then have a: "\<exists>n'. insertDepartmentRow (?db0, 0) (department_params_of ?d) = Inr (?db1, n')"
    by simp
  have "ps_department ?p = Some \<lparr> dr_name = ''Engineering'' \<rparr>
      \<and> find (\<lambda>d. D_NAME d = dr_name \<lparr> dr_name = ''Engineering'' \<rparr>) (DEPARTMENTS ?db1)
          = Some ?row
      \<and> ps_id ?p \<notin> set (map P_ID (PEOPLE ?db1))"
    by simp
  with inst have "insertPersonRow ?db1 (person_params_of ?p) =
      Inr (?db1 \<lparr> PEOPLE := PEOPLE ?db1 @
              [\<lparr> P_ID = ps_id ?p, P_NAME = ps_name ?p, P_AVATAR_URL = None,
                 P_DEPARTMENT_ID = D_ID ?row \<rparr>] \<rparr>)"
    by blast
  then have b: "insertPersonRow ?db1 (person_params_of ?p) =
      Inr \<lparr> DEPARTMENTS = [?row],
            PEOPLE = [\<lparr> P_ID = ''p1'', P_NAME = ''Anna'', P_AVATAR_URL = None,
                        P_DEPARTMENT_ID = ''d1'' \<rparr>] \<rparr>"
    by simp
  from a b show ?thesis by blast
qed

text \<open>
  Once the fetch has returned, \<^verbatim>\<open>main\<close> logs one line, closes the handle and rejects
  nothing, whatever the \<^verbatim>\<open>try\<close> block met.
\<close>

lemma main_after_fetch:
  "handle_open (main (Inr result) file) = False
   \<and> rejected (main (Inr result) file) = None
   \<and> length (console (main (Inr result) file)) = 1"
  by (simp add: main_def split: prod.splits option.splits)

text \<open>
  Claim C2. The claim does not hold when the fetch fails: \<^verbatim>\<open>await executeQuery\<close>
  (lines 51-57) stands before the \<^verbatim>\<open>try\<close> (line 59), after the handle was opened
  (line 47). The error leaves \<^verbatim>\<open>main\<close> uncaught, nothing is logged and the handle
  stays open.
\<close>

theorem main_fetch_failure_escapes:
  "main (Inl (FetchError ''fetch failed'')) None =
     \<lparr> db_file = None, console = [], handle_open = True,
       rejected = Some (FetchError ''fetch failed'') \<rparr>"
  by (simp add: main_def)

section \<open>Properties of the engine\<close>

lemma like_percent: "like_match [CHR ''%''] t"
  by (induction t) auto

lemma like_literal_char:
  "p \<noteq> CHR ''%'' \<Longrightarrow> p \<noteq> CHR ''_'' \<Longrightarrow>
   like_match (p # ps) t = (case t of [] \<Rightarrow> False | c # cs \<Rightarrow> lower_ascii p = lower_ascii c \<and> like_match ps cs)"
  by (cases t) auto

lemma like_literal:
  "CHR ''%'' \<notin> set s \<Longrightarrow> CHR ''_'' \<notin> set s \<Longrightarrow>
   like_match (s @ ps) t = (prefix_ci s t \<and> like_match ps (drop (length s) t))"
proof (induction s arbitrary: t)
  case Nil
  then show ?case by (simp add: prefix_ci_def)
next
  case (Cons a s)
  then show ?case
    by (cases t) (auto simp: prefix_ci_def)
qed

lemma like_percent_prefix:
  "like_match (CHR ''%'' # ps) t = (\<exists>n\<le>length t. like_match ps (drop n t))"
proof (induction t)
  case Nil
  then show ?case by simp
next
  case (Cons c cs)
  show ?case
  proof
    assume "like_match (CHR ''%'' # ps) (c # cs)"
    then consider "like_match ps (c # cs)" | "like_match (CHR ''%'' # ps) cs" by auto
    then show "\<exists>n\<le>length (c # cs). like_match ps (drop n (c # cs))"
    proof cases
      case 1
      then have "like_match ps (drop 0 (c # cs))" by simp
      then show ?thesis by blast
    next
      case 2
      with Cons obtain n where "n \<le> length cs" "like_match ps (drop n cs)" by auto
      then have "Suc n \<le> length (c # cs)" "like_match ps (drop (Suc n) (c # cs))" by auto
      then show ?thesis by blast
    qed
  next
    assume "\<exists>n\<le>length (c # cs). like_match ps (drop n (c # cs))"
    then obtain n where n: "n \<le> length (c # cs)" "like_match ps (drop n (c # cs))" by blast
    show "like_match (CHR ''%'' # ps) (c # cs)"
    proof (cases n)
      case 0
      with n show ?thesis by simp
    next
      case (Suc m)
      with n have "m \<le> length cs" "like_match ps (drop m cs)" by auto
      with Cons have "like_match (CHR ''%'' # ps) cs" by blast
      then show ?thesis by simp
    qed
  qed
qed

lemma contains_ci_iff: "contains_ci s t = (\<exists>n\<le>length t. prefix_ci s (drop n t))"
proof (induction t)
  case Nil
  then show ?case by (auto simp: prefix_ci_def)
next
  case (Cons c cs)
  show ?case
  proof
    assume "contains_ci s (c # cs)"
    then consider "prefix_ci s (c # cs)" | "contains_ci s cs" by auto
    then show "\<exists>n\<le>length (c # cs). prefix_ci s (drop n (c # cs))"
    proof cases
      case 1
      then have "prefix_ci s (drop 0 (c # cs))" by simp
      then show ?thesis by blast
    next
      case 2
      with Cons obtain n where "n \<le> length cs" "prefix_ci s (drop n cs)" by auto
      then have "Suc n \<le> length (c # cs)" "prefix_ci s (drop (Suc n) (c # cs))" by auto
      then show ?thesis by blast
    qed
  next
    assume "\<exists>n\<le>length (c # cs). prefix_ci s (drop n (c # cs))"
    then obtain n where n: "n \<le> length (c # cs)" "prefix_ci s (drop n (c # cs))" by blast
    show "contains_ci s (c # cs)"
    proof (cases n)
      case 0
      with n show ?thesis by simp
    next
      case (Suc m)
      with n have "m \<le> length cs" "prefix_ci s (drop m cs)" by auto
      with Cons have "contains_ci s cs" by blast
      then show ?thesis by simp
    qed
  qed
qed

lemma like_contains:
  assumes "CHR ''%'' \<notin> set s" "CHR ''_'' \<notin> set s"
  shows "like_match (CHR ''%'' # s @ [CHR ''%'']) t = contains_ci s t"
proof -
  have "like_match (s @ [CHR ''%'']) u = prefix_ci s u" for u
    by (simp add: like_literal [OF assms] like_percent)
  then show ?thesis
    by (simp only: like_percent_prefix [of "s @ [CHR ''%'']"] contains_ci_iff)
qed

lemma until_nul_id: "CHR 0x00 \<notin> set t \<Longrightarrow> until_nul t = t"
  by (auto simp: until_nul_def takeWhile_eq_all_conv)

lemma sql_like_plain:
  "CHR 0x00 \<notin> set pattern \<Longrightarrow> CHR 0x00 \<notin> set t \<Longrightarrow>
     sql_like pattern t = like_match pattern t"
  by (simp add: sql_like_def until_nul_id)

text \<open>A name is read up to its first NUL: what follows does not count.\<close>

lemma sql_like_stops_at_nul:
  "\<not> sql_like ''%an%'' (''Bo'' @ [CHR 0x00] @ ''an'') \<and> contains_ci ''an'' (''Bo'' @ [CHR 0x00] @ ''an'')"
  by code_simp

lemma contains_ci_substring:
  "contains_ci s t = (\<exists>u w v. t = u @ w @ v \<and> map lower_ascii w = map lower_ascii s)"
proof
  assume "contains_ci s t"
  then obtain n where n: "n \<le> length t" "prefix_ci s (drop n t)"
    by (auto simp: contains_ci_iff)
  let ?w = "take (length s) (drop n t)"
  have "drop n t = ?w @ drop (length s) (drop n t)" by (simp only: append_take_drop_id)
  then have "t = take n t @ ?w @ drop (length s) (drop n t)"
    by (metis append_take_drop_id)
  moreover have "map lower_ascii ?w = map lower_ascii s" using n by (simp add: prefix_ci_def)
  ultimately show "\<exists>u w v. t = u @ w @ v \<and> map lower_ascii w = map lower_ascii s" by blast
next
  assume "\<exists>u w v. t = u @ w @ v \<and> map lower_ascii w = map lower_ascii s"
  then obtain u w v where t: "t = u @ w @ v" and w: "map lower_ascii w = map lower_ascii s" by blast
  from w have len: "length w = length s" by (metis length_map)
  have "prefix_ci s (drop (length u) t)" using t w len by (simp add: prefix_ci_def)
  moreover have "length u \<le> length t" using t by simp
  ultimately show "contains_ci s t" by (auto simp: contains_ci_iff)
qed

lemma strip_prefix_append: "strip_prefix xs (xs @ ys) = Some ys"
  by (induction xs) auto

lemma parse_select: "parse_sql select_sql = Query None"
  using strip_prefix_append [of select_sql "[]"] by (simp add: parse_sql_def)

lemma closing_literal_ok:
  "quote \<notin> set b \<Longrightarrow> CHR 0x00 \<notin> set b \<Longrightarrow> closing_literal (quote # b @ [quote]) = Some b"
  by (simp add: closing_literal_def)

lemma parse_where:
  assumes "quote \<notin> set s" "CHR 0x00 \<notin> set s"
  shows "parse_sql (select_sql @ where_like s) = Query (Some (CHR ''%'' # s @ [CHR ''%'']))"
proof -
  have q: "quote \<noteq> CHR ''%''" by (simp add: quote_def)
  have b: "quote \<notin> set (CHR ''%'' # s @ [CHR ''%''])" "CHR 0x00 \<notin> set (CHR ''%'' # s @ [CHR ''%''])"
    using assms q by auto
  have w: "where_like s = '' WHERE P.NAME LIKE '' @ (quote # (CHR ''%'' # s @ [CHR ''%'']) @ [quote])"
    by (simp add: where_like_def)
  have "strip_prefix '' WHERE P.NAME LIKE '' (where_like s) = Some (quote # (CHR ''%'' # s @ [CHR ''%'']) @ [quote])"
    unfolding w by (rule strip_prefix_append)
  moreover have "where_like s \<noteq> []" by (simp add: where_like_def)
  ultimately show ?thesis
    using closing_literal_ok [OF b]
    by (simp add: parse_sql_def strip_prefix_append)
qed

section \<open>Loading, then querying\<close>

lemma select_rows_mem:
  "row \<in> set (select_rows db pattern) \<longleftrightarrow>
     (\<exists>p d. p \<in> set (PEOPLE db) \<and> d \<in> set (DEPARTMENTS db) \<and> name_matches pattern p
        \<and> P_DEPARTMENT_ID p = D_ID d \<and> row = join_row p d)"
  by (auto simp: select_rows_def)

lemma distinct_map_eq:
  "distinct (map f xs) \<Longrightarrow> x \<in> set xs \<Longrightarrow> y \<in> set xs \<Longrightarrow> f x = f y \<Longrightarrow> x = y"
  by (meson distinct_map inj_on_def)

lemma handler_select:
  assumes "env_file env = Some db" "env_fault env = None"
    and "parse_sql (sql_of (searchParam_of search)) = Query pattern"
  shows "handler env search =
     \<lparr> response = Some \<lparr> status = 200, results = map to_record (select_rows db pattern) \<rparr>,
       thrown = None, logged = [], connection_open = False \<rparr>"
  using assms by (simp add: handler_def prepare_def stmt_all_def)

lemma sql_of_absent: "sql_of (searchParam_of None) = select_sql"
  by (simp add: sql_of_def searchParam_of_def)

text \<open>
  Claim C7. When the people transaction commits, every person of the feed has a
  department in the feed, the stored \<^verbatim>\<open>DEPARTMENT_ID\<close> is the \<^verbatim>\<open>ID\<close> of the first row of
  \<^verbatim>\<open>DEPARTMENTS\<close> whose \<^verbatim>\<open>NAME\<close> is that department's name, every row a query returns
  for that person carries that department, with that name, and the query without a
  search value returns the person with it. The primary key of \<^verbatim>\<open>DEPARTMENTS\<close> is the
  first hypothesis.
\<close>

theorem department_resolved_by_name:
  assumes ids: "distinct (map D_ID (DEPARTMENTS db))"
    and commit: "insertPeople db (Some (map person_params_of people)) = (None, db')"
    and mem: "person \<in> set people"
    and env: "env_file env = Some db'" "env_fault env = None"
  shows "\<exists>dep d. ps_department person = Some dep
           \<and> find (\<lambda>d. D_NAME d = dr_name dep) (DEPARTMENTS db) = Some d
           \<and> \<lparr> P_ID = ps_id person, P_NAME = ps_name person,
                 P_AVATAR_URL = or_null (map_option an_url (ps_avatar person)),
                 P_DEPARTMENT_ID = D_ID d \<rparr> \<in> set (PEOPLE db')
           \<and> (\<forall>pattern. \<forall>row \<in> set (select_rows db' pattern).
                 PERSON_ID row = ps_id person \<longrightarrow>
                   DEPARTMENT_ID row = D_ID d \<and> DEPARTMENT_NAME row = dr_name dep)
           \<and> (\<exists>resp. response (handler env None) = Some resp
                 \<and> \<lparr> pr_id = ps_id person, pr_name = ps_name person,
                       pr_avatar = \<lparr> av_url = or_null (map_option an_url (ps_avatar person)) \<rparr>,
                       pr_department = \<lparr> dep_id = D_ID d, dep_name = dr_name dep \<rparr> \<rparr>
                     \<in> set (results resp))"
proof -
  let ?ps = "map person_params_of people"
  from commit have run: "run_each insertPersonRow db ?ps = (None, db')"
    by (auto simp: insertPeople_Some split: option.splits prod.splits)
  from run_each_people_append [OF run] obtain new where
    new: "PEOPLE db' = PEOPLE db @ new" and deps: "DEPARTMENTS db' = DEPARTMENTS db"
    and vals: "map (person_values db) ?ps = map Inr new"
    and dist: "distinct (map P_ID new)"
    and disj: "set (map P_ID new) \<inter> set (map P_ID (PEOPLE db)) = {}"
    by blast
  from mem have "person_values db (person_params_of person) \<in> set (map (person_values db) ?ps)"
    by simp
  with vals obtain r where r: "r \<in> set new" "person_values db (person_params_of person) = Inr r"
    by auto
  from r(2) obtain dep d where dep: "ps_department person = Some dep"
    and d: "find (\<lambda>d. D_NAME d = dr_name dep) (DEPARTMENTS db) = Some d"
    and row: "r = \<lparr> P_ID = ps_id person, P_NAME = ps_name person,
                 P_AVATAR_URL = or_null (map_option an_url (ps_avatar person)),
                 P_DEPARTMENT_ID = D_ID d \<rparr>"
    by (auto simp: person_values_def person_params_of_def resolve_department_def
        split: option.splits)
  from d have d_mem: "d \<in> set (DEPARTMENTS db)" and d_name: "D_NAME d = dr_name dep"
    by (auto simp: find_Some_iff)
  from r(1) new have r_mem: "r \<in> set (PEOPLE db')" by simp
  have only: "r' = r" if "r' \<in> set (PEOPLE db')" "P_ID r' = ps_id person" for r'
  proof (cases "r' \<in> set new")
    case True
    with dist r(1) that(2) row show ?thesis
      by (intro distinct_map_eq [of P_ID new]) simp_all
  next
    case False
    with that(1) new have "r' \<in> set (PEOPLE db)" by simp
    then have "ps_id person \<in> set (map P_ID (PEOPLE db))" using that(2) by force
    moreover have "ps_id person \<in> set (map P_ID new)" using r(1) row by force
    ultimately show ?thesis using disj by blast
  qed
  have rows: "DEPARTMENT_ID jr = D_ID d \<and> DEPARTMENT_NAME jr = dr_name dep"
    if "jr \<in> set (select_rows db' pattern)" "PERSON_ID jr = ps_id person" for pattern jr
  proof -
    from that(1) obtain p d' where p: "p \<in> set (PEOPLE db')" "d' \<in> set (DEPARTMENTS db')"
      "P_DEPARTMENT_ID p = D_ID d'" "jr = join_row p d'"
      by (auto simp: select_rows_mem)
    from p(4) that(2) have "P_ID p = ps_id person" by (simp add: join_row_def)
    with only p(1) have "p = r" by blast
    with p(3) row have "D_ID d' = D_ID d" by simp
    with ids p(2) deps d_mem have "d' = d"
      by (intro distinct_map_eq [of D_ID "DEPARTMENTS db"]) simp_all
    with p(4) d_name show ?thesis by (simp add: join_row_def)
  qed
  have "P_DEPARTMENT_ID r = D_ID d" using row by simp
  moreover have "name_matches None r" by (simp add: name_matches_def)
  moreover have "d \<in> set (DEPARTMENTS db')" using d_mem deps by simp
  ultimately have "join_row r d \<in> set (select_rows db' None)"
    unfolding select_rows_mem using r_mem by blast
  then have "to_record (join_row r d) \<in> set (map to_record (select_rows db' None))"
    by simp
  moreover have "to_record (join_row r d) =
      \<lparr> pr_id = ps_id person, pr_name = ps_name person,
        pr_avatar = \<lparr> av_url = or_null (map_option an_url (ps_avatar person)) \<rparr>,
        pr_department = \<lparr> dep_id = D_ID d, dep_name = dr_name dep \<rparr> \<rparr>"
    using row d_name by (simp add: to_record_def join_row_def)
  moreover have "response (handler env None) =
      Some \<lparr> status = 200, results = map to_record (select_rows db' None) \<rparr>"
    using handler_select [OF env, of None None] parse_select by (simp add: sql_of_absent)
  ultimately have "\<exists>resp. response (handler env None) = Some resp
                 \<and> \<lparr> pr_id = ps_id person, pr_name = ps_name person,
                       pr_avatar = \<lparr> av_url = or_null (map_option an_url (ps_avatar person)) \<rparr>,
                       pr_department = \<lparr> dep_id = D_ID d, dep_name = dr_name dep \<rparr> \<rparr>
                     \<in> set (results resp)"
    by simp
  with dep d r_mem row rows show ?thesis by blast
qed

theorem department_resolved_by_name_witness:
  "insertPeople
     \<lparr> DEPARTMENTS = [\<lparr> D_ID = ''d1'', D_NAME = ''Engineering'', D_PARENT = None \<rparr>,
                      \<lparr> D_ID = ''d2'', D_NAME = ''Marketing'', D_PARENT = Some ''d1'' \<rparr>],
       PEOPLE = [] \<rparr>
     (Some (map person_params_of
        [\<lparr> ps_id = ''p2'', ps_name = ''Juan'', ps_title = ''Writer'',
           ps_avatar = Some \<lparr> an_url = ''https://cdn/juan.png'' \<rparr>,
           ps_department = Some \<lparr> dr_name = ''Marketing'' \<rparr> \<rparr>]))
   = (None,
      \<lparr> DEPARTMENTS = [\<lparr> D_ID = ''d1'', D_NAME = ''Engineering'', D_PARENT = None \<rparr>,
                       \<lparr> D_ID = ''d2'', D_NAME = ''Marketing'', D_PARENT = Some ''d1'' \<rparr>],
        PEOPLE = [\<lparr> P_ID = ''p2'', P_NAME = ''Juan'',
                    P_AVATAR_URL = Some ''https://cdn/juan.png'',
                    P_DEPARTMENT_ID = ''d2'' \<rparr>] \<rparr>)
   \<and> (\<exists>resp. response (handler
          \<lparr> env_file = Some
              \<lparr> DEPARTMENTS = [\<lparr> D_ID = ''d1'', D_NAME = ''Engineering'', D_PARENT = None \<rparr>,
                       \<lparr> D_ID = ''d2'', D_NAME = ''Marketing'', D_PARENT = Some ''d1'' \<rparr>],
                PEOPLE = [\<lparr> P_ID = ''p2'', P_NAME = ''Juan'',
                    P_AVATAR_URL = Some ''https://cdn/juan.png'',
                    P_DEPARTMENT_ID = ''d2'' \<rparr>] \<rparr>,
            env_fault = None,
            env_outside = (\<lambda>sql. Inl (SqliteError ''syntax error'')) \<rparr> None) = Some resp
        \<and> \<lparr> pr_id = ''p2'', pr_name = ''Juan'',
              pr_avatar = \<lparr> av_url = Some ''https://cdn/juan.png'' \<rparr>,
              pr_department = \<lparr> dep_id = ''d2'', dep_name = ''Marketing'' \<rparr> \<rparr>
            \<in> set (results resp))"
proof -
  let ?deps = "[\<lparr> D_ID = ''d1'', D_NAME = ''Engineering'', D_PARENT = None \<rparr>,
                \<lparr> D_ID = ''d2'', D_NAME = ''Marketing'', D_PARENT = Some ''d1'' \<rparr>]"
  let ?db = "\<lparr> DEPARTMENTS = ?deps, PEOPLE = [] \<rparr>"
  let ?juan = "\<lparr> ps_id = ''p2'', ps_name = ''Juan'', ps_title = ''Writer'',
           ps_avatar = Some \<lparr> an_url = ''https://cdn/juan.png'' \<rparr>,
           ps_department = Some \<lparr> dr_name = ''Marketing'' \<rparr> \<rparr>"
  let ?db' = "\<lparr> DEPARTMENTS = ?deps,
        PEOPLE = [\<lparr> P_ID = ''p2'', P_NAME = ''Juan'',
                    P_AVATAR_URL = Some ''https://cdn/juan.png'',
                    P_DEPARTMENT_ID = ''d2'' \<rparr>] \<rparr>"
  let ?env = "\<lparr> env_file = Some ?db', env_fault = None,
            env_outside = (\<lambda>sql. Inl (SqliteError ''syntax error'')) \<rparr>"
  have ids: "distinct (map D_ID (DEPARTMENTS ?db))" by simp
  have commit: "insertPeople ?db (Some (map person_params_of [?juan])) = (None, ?db')"
    by (simp add: insertPeople_Some insertPersonRow_def person_values_def
        resolve_department_def person_params_of_def or_null_def)
  have mem: "?juan \<in> set [?juan]" by simp
  have env: "env_file ?env = Some ?db'" "env_fault ?env = None" by simp_all
  from department_resolved_by_name [OF ids commit mem env]
  obtain dep d resp where dep: "ps_department ?juan = Some dep"
    and d: "find (\<lambda>d. D_NAME d = dr_name dep) (DEPARTMENTS ?db) = Some d"
    and resp: "response (handler ?env None) = Some resp"
      "\<lparr> pr_id = ps_id ?juan, pr_name = ps_name ?juan,
         pr_avatar = \<lparr> av_url = or_null (map_option an_url (ps_avatar ?juan)) \<rparr>,
         pr_department = \<lparr> dep_id = D_ID d, dep_name = dr_name dep \<rparr> \<rparr> \<in> set (results resp)"
    by blast
  from dep have dep': "dep = \<lparr> dr_name = ''Marketing'' \<rparr>" by simp
  with d have d': "d = \<lparr> D_ID = ''d2'', D_NAME = ''Marketing'', D_PARENT = Some ''d1'' \<rparr>"
    by simp
  from resp(2) have "\<lparr> pr_id = ''p2'', pr_name = ''Juan'',
              pr_avatar = \<lparr> av_url = Some ''https://cdn/juan.png'' \<rparr>,
              pr_department = \<lparr> dep_id = ''d2'', dep_name = ''Marketing'' \<rparr> \<rparr>
            \<in> set (results resp)"
    unfolding dep' d' by (simp add: or_null_def)
  with commit resp(1) show ?thesis by blast
qed

section \<open>Properties of the Query Service\<close>

lemma sql_of_empty: "sql_of (searchParam_of (Some (Str []))) = select_sql"
  by (simp add: sql_of_def searchParam_of_def)

lemma sql_of_search:
  "s \<noteq> [] \<Longrightarrow> sql_of (searchParam_of (Some (Str s))) = select_sql @ where_like s"
  by (simp add: sql_of_def searchParam_of_def interpolate_def)

lemma to_record_rows:
  "map to_record (select_rows db pattern) =
     concat (map (\<lambda>p. map (\<lambda>d.
         \<lparr> pr_id = P_ID p, pr_name = P_NAME p, pr_avatar = \<lparr> av_url = P_AVATAR_URL p \<rparr>,
           pr_department = \<lparr> dep_id = D_ID d, dep_name = D_NAME d \<rparr> \<rparr>)
         (filter (\<lambda>d. P_DEPARTMENT_ID p = D_ID d) (DEPARTMENTS db)))
       (filter (name_matches pattern) (PEOPLE db)))"
  by (simp add: select_rows_def map_concat comp_def to_record_def join_row_def)

text \<open>
  Claim C6. On a database that has the tables, when the engine does not fail, a request
  without search value and a request with the empty search value get the same answer:
  status 200 and, for every row of \<^verbatim>\<open>PEOPLE\<close> in turn, one record
  \<^verbatim>\<open>{id, name, avatar: {url}, department: {id, name}}\<close> per row of \<^verbatim>\<open>DEPARTMENTS\<close>
  whose \<^verbatim>\<open>ID\<close> is the person's \<^verbatim>\<open>DEPARTMENT_ID\<close>. No filter on the name is applied.
\<close>

theorem empty_search_returns_everyone:
  assumes "env_file env = Some db" and "env_fault env = None"
  shows "handler env None =
     \<lparr> response = Some \<lparr> status = 200, results =
         concat (map (\<lambda>p. map (\<lambda>d.
             \<lparr> pr_id = P_ID p, pr_name = P_NAME p, pr_avatar = \<lparr> av_url = P_AVATAR_URL p \<rparr>,
               pr_department = \<lparr> dep_id = D_ID d, dep_name = D_NAME d \<rparr> \<rparr>)
             (filter (\<lambda>d. P_DEPARTMENT_ID p = D_ID d) (DEPARTMENTS db)))
           (PEOPLE db)) \<rparr>,
       thrown = None, logged = [], connection_open = False \<rparr>
   \<and> handler env (Some (Str [])) = handler env None"
proof -
  have "filter (name_matches None) (PEOPLE db) = PEOPLE db"
    by (simp add: name_matches_def)
  then have rows: "map to_record (select_rows db None) =
         concat (map (\<lambda>p. map (\<lambda>d.
             \<lparr> pr_id = P_ID p, pr_name = P_NAME p, pr_avatar = \<lparr> av_url = P_AVATAR_URL p \<rparr>,
               pr_department = \<lparr> dep_id = D_ID d, dep_name = D_NAME d \<rparr> \<rparr>)
             (filter (\<lambda>d. P_DEPARTMENT_ID p = D_ID d) (DEPARTMENTS db)))
           (PEOPLE db))"
    by (simp only: to_record_rows)
  have a: "handler env None =
     \<lparr> response = Some \<lparr> status = 200, results = map to_record (select_rows db None) \<rparr>,
       thrown = None, logged = [], connection_open = False \<rparr>"
    using handler_select [OF assms, of None None] parse_select by (simp add: sql_of_absent)
  have b: "handler env (Some (Str [])) =
     \<lparr> response = Some \<lparr> status = 200, results = map to_record (select_rows db None) \<rparr>,
       thrown = None, logged = [], connection_open = False \<rparr>"
    using handler_select [OF assms, of "Some (Str [])" None] parse_select
    by (simp add: sql_of_empty)
  from a b rows show ?thesis by simp
qed

theorem empty_search_returns_everyone_witness:
  "handler
     \<lparr> env_file = Some
         \<lparr> DEPARTMENTS = [\<lparr> D_ID = ''d1'', D_NAME = ''Engineering'', D_PARENT = None \<rparr>,
                          \<lparr> D_ID = ''d2'', D_NAME = ''Marketing'', D_PARENT = Some ''d1'' \<rparr>],
           PEOPLE = [\<lparr> P_ID = ''p1'', P_NAME = ''Anna'', P_AVATAR_URL = None,
                       P_DEPARTMENT_ID = ''d2'' \<rparr>,
                     \<lparr> P_ID = ''p2'', P_NAME = ''Bob'', P_AVATAR_URL = Some ''https://cdn/b.png'',
                       P_DEPARTMENT_ID = ''d1'' \<rparr>] \<rparr>,
       env_fault = None,
       env_outside = (\<lambda>sql. Inl (SqliteError ''syntax error'')) \<rparr>
     (Some (Str []))
   = \<lparr> response = Some \<lparr> status = 200, results =
         [\<lparr> pr_id = ''p1'', pr_name = ''Anna'', pr_avatar = \<lparr> av_url = None \<rparr>,
            pr_department = \<lparr> dep_id = ''d2'', dep_name = ''Marketing'' \<rparr> \<rparr>,
          \<lparr> pr_id = ''p2'', pr_name = ''Bob'',
            pr_avatar = \<lparr> av_url = Some ''https://cdn/b.png'' \<rparr>,
            pr_department = \<lparr> dep_id = ''d1'', dep_name = ''Engineering'' \<rparr> \<rparr>] \<rparr>,
       thrown = None, logged = [], connection_open = False \<rparr>"
proof -
  let ?db = "\<lparr> DEPARTMENTS = [\<lparr> D_ID = ''d1'', D_NAME = ''Engineering'', D_PARENT = None \<rparr>,
                          \<lparr> D_ID = ''d2'', D_NAME = ''Marketing'', D_PARENT = Some ''d1'' \<rparr>],
           PEOPLE = [\<lparr> P_ID = ''p1'', P_NAME = ''Anna'', P_AVATAR_URL = None,
                       P_DEPARTMENT_ID = ''d2'' \<rparr>,
                     \<lparr> P_ID = ''p2'', P_NAME = ''Bob'', P_AVATAR_URL = Some ''https://cdn/b.png'',
                       P_DEPARTMENT_ID = ''d1'' \<rparr>] \<rparr>"
  let ?env = "\<lparr> env_file = Some ?db, env_fault = None,
       env_outside = (\<lambda>sql. Inl (SqliteError ''syntax error'')) \<rparr>"
  have h: "env_file ?env = Some ?db" "env_fault ?env = None" by simp_all
  from empty_search_returns_everyone [OF h] show ?thesis by simp
qed

text \<open>
  A search value without quote and without NUL gives the pattern \<^verbatim>\<open>%s%\<close>, in which
  \<^verbatim>\<open>%\<close> and \<^verbatim>\<open>_\<close> of the value are wildcards; each name is read up to its first
  NUL.
\<close>

lemma handler_like:
  assumes "env_file env = Some db" and "env_fault env = None"
    and "s \<noteq> []" and "quote \<notin> set s" and "CHR 0x00 \<notin> set s"
  shows "handler env (Some (Str s)) =
     \<lparr> response = Some \<lparr> status = 200, results =
         concat (map (\<lambda>p. map (\<lambda>d.
             \<lparr> pr_id = P_ID p, pr_name = P_NAME p, pr_avatar = \<lparr> av_url = P_AVATAR_URL p \<rparr>,
               pr_department = \<lparr> dep_id = D_ID d, dep_name = D_NAME d \<rparr> \<rparr>)
             (filter (\<lambda>d. P_DEPARTMENT_ID p = D_ID d) (DEPARTMENTS db)))
           (filter (\<lambda>p. sql_like (CHR ''%'' # s @ [CHR ''%'']) (P_NAME p)) (PEOPLE db))) \<rparr>,
       thrown = None, logged = [], connection_open = False \<rparr>"
proof -
  let ?pat = "CHR ''%'' # s @ [CHR ''%'']"
  have "parse_sql (sql_of (searchParam_of (Some (Str s)))) = Query (Some ?pat)"
    using assms(3-5) by (simp add: sql_of_search parse_where)
  from handler_select [OF assms(1,2) this]
  have "handler env (Some (Str s)) =
     \<lparr> response = Some \<lparr> status = 200, results = map to_record (select_rows db (Some ?pat)) \<rparr>,
       thrown = None, logged = [], connection_open = False \<rparr>" .
  moreover have "name_matches (Some ?pat) = (\<lambda>p. sql_like ?pat (P_NAME p))"
    by (simp add: name_matches_def fun_eq_iff)
  ultimately show ?thesis
    by (simp only: to_record_rows)
qed

text \<open>
  Claim C5, as amended. On a database that has the tables and no NUL in a stored name,
  when the engine does not fail, a non-empty search value \<open>s\<close> without quote, NUL,
  \<^verbatim>\<open>%\<close> and \<^verbatim>\<open>_\<close> is answered with status 200 and exactly the people whose name
  contains \<open>s\<close>, the letters A-Z and a-z compared without regard to case, each joined
  to the department rows with their \<^verbatim>\<open>DEPARTMENT_ID\<close>; a person without such a row is
  left out.
\<close>

theorem search_returns_people_containing:
  assumes "env_file env = Some db" and "env_fault env = None"
    and "s \<noteq> []" and "quote \<notin> set s" and "CHR 0x00 \<notin> set s"
    and "CHR ''%'' \<notin> set s" and "CHR ''_'' \<notin> set s"
    and names: "list_all (\<lambda>p. CHR 0x00 \<notin> set (P_NAME p)) (PEOPLE db)"
  shows "handler env (Some (Str s)) =
     \<lparr> response = Some \<lparr> status = 200, results =
         concat (map (\<lambda>p. map (\<lambda>d.
             \<lparr> pr_id = P_ID p, pr_name = P_NAME p, pr_avatar = \<lparr> av_url = P_AVATAR_URL p \<rparr>,
               pr_department = \<lparr> dep_id = D_ID d, dep_name = D_NAME d \<rparr> \<rparr>)
             (filter (\<lambda>d. P_DEPARTMENT_ID p = D_ID d) (DEPARTMENTS db)))
           (filter (\<lambda>p. contains_ci s (P_NAME p)) (PEOPLE db))) \<rparr>,
       thrown = None, logged = [], connection_open = False \<rparr>"
proof -
  let ?pat = "CHR ''%'' # s @ [CHR ''%'']"
  have pat: "CHR 0x00 \<notin> set ?pat" using assms(5) by simp
  have "sql_like ?pat (P_NAME p) = contains_ci s (P_NAME p)" if "p \<in> set (PEOPLE db)" for p
  proof -
    from names that have "CHR 0x00 \<notin> set (P_NAME p)" by (simp add: list_all_iff)
    with pat have "sql_like ?pat (P_NAME p) = like_match ?pat (P_NAME p)"
      by (rule sql_like_plain)
    then show ?thesis
      by (simp only: like_contains [OF assms(6,7)])
  qed
  then have "filter (\<lambda>p. sql_like ?pat (P_NAME p)) (PEOPLE db)
      = filter (\<lambda>p. contains_ci s (P_NAME p)) (PEOPLE db)"
    by (intro filter_cong) simp_all
  with handler_like [OF assms(1-5)] show ?thesis by simp
qed

lemma underscore_not_in_Bob: "\<not> contains_ci ''_'' ''Bob''"
  by code_simp

lemma contains_an:
  "contains_ci ''an'' ''Anna''" "contains_ci ''an'' ''Juan''" "contains_ci ''an'' ''Joan''"
  by code_simp+

theorem search_returns_people_containing_witness:
  "handler
     \<lparr> env_file = Some
         \<lparr> DEPARTMENTS = [\<lparr> D_ID = ''d1'', D_NAME = ''Engineering'', D_PARENT = None \<rparr>],
           PEOPLE = [\<lparr> P_ID = ''p1'', P_NAME = ''Anna'', P_AVATAR_URL = None,
                       P_DEPARTMENT_ID = ''d1'' \<rparr>,
                     \<lparr> P_ID = ''p2'', P_NAME = ''Bob'', P_AVATAR_URL = None,
                       P_DEPARTMENT_ID = ''d1'' \<rparr>,
                     \<lparr> P_ID = ''p3'', P_NAME = ''Juan'', P_AVATAR_URL = Some ''https://cdn/j.png'',
                       P_DEPARTMENT_ID = ''d1'' \<rparr>,
                     \<lparr> P_ID = ''p4'', P_NAME = ''Joan'', P_AVATAR_URL = None,
                       P_DEPARTMENT_ID = ''d7'' \<rparr>] \<rparr>,
       env_fault = None,
       env_outside = (\<lambda>sql. Inl (SqliteError ''syntax error'')) \<rparr>
     (Some (Str ''an''))
   = \<lparr> response = Some \<lparr> status = 200, results =
         [\<lparr> pr_id = ''p1'', pr_name = ''Anna'', pr_avatar = \<lparr> av_url = None \<rparr>,
            pr_department = \<lparr> dep_id = ''d1'', dep_name = ''Engineering'' \<rparr> \<rparr>,
          \<lparr> pr_id = ''p3'', pr_name = ''Juan'',
            pr_avatar = \<lparr> av_url = Some ''https://cdn/j.png'' \<rparr>,
            pr_department = \<lparr> dep_id = ''d1'', dep_name = ''Engineering'' \<rparr> \<rparr>] \<rparr>,
       thrown = None, logged = [], connection_open = False \<rparr>"
proof -
  let ?db = "\<lparr> DEPARTMENTS = [\<lparr> D_ID = ''d1'', D_NAME = ''Engineering'', D_PARENT = None \<rparr>],
           PEOPLE = [\<lparr> P_ID = ''p1'', P_NAME = ''Anna'', P_AVATAR_URL = None,
                       P_DEPARTMENT_ID = ''d1'' \<rparr>,
                     \<lparr> P_ID = ''p2'', P_NAME = ''Bob'', P_AVATAR_URL = None,
                       P_DEPARTMENT_ID = ''d1'' \<rparr>,
                     \<lparr> P_ID = ''p3'', P_NAME = ''Juan'', P_AVATAR_URL = Some ''https://cdn/j.png'',
                       P_DEPARTMENT_ID = ''d1'' \<rparr>,
                     \<lparr> P_ID = ''p4'', P_NAME = ''Joan'', P_AVATAR_URL = None,
                       P_DEPARTMENT_ID = ''d7'' \<rparr>] \<rparr>"
  let ?env = "\<lparr> env_file = Some ?db, env_fault = None,
       env_outside = (\<lambda>sql. Inl (SqliteError ''syntax error'')) \<rparr>"
  have h: "env_file ?env = Some ?db" "env_fault ?env = None" "''an'' \<noteq> []"
    "quote \<notin> set ''an''" "CHR 0x00 \<notin> set ''an''"
    by (simp_all add: quote_def)
  have w: "\<not> contains_ci ''an'' ''Bob''" by code_simp
  have "CHR ''%'' \<notin> set ''an''" "CHR ''_'' \<notin> set ''an''"
    "list_all (\<lambda>p. CHR 0x00 \<notin> set (P_NAME p)) (PEOPLE ?db)"
    by simp_all
  from search_returns_people_containing [OF h this] show ?thesis
    by (simp del: contains_ci.simps add: contains_an w)
qed

text \<open>
  What \<^verbatim>\<open>handler\<close> does once \<^verbatim>\<open>prepare\<close> has returned, whether \<^verbatim>\<open>all()\<close> throws or
  not, and what it does when \<^verbatim>\<open>prepare\<close> throws.
\<close>

lemma handler_after_prepare:
  assumes "prepare env (sql_of (searchParam_of search)) = Inr stmt"
  shows "(\<exists>rs. response (handler env search) = Some \<lparr> status = 200, results = rs \<rparr>)
       \<and> thrown (handler env search) = None
       \<and> connection_open (handler env search) = False
       \<and> (case stmt_all env stmt of Inl e \<Rightarrow> logged (handler env search) = [e]
            | Inr rows \<Rightarrow> logged (handler env search) = [])"
  using assms by (simp add: handler_def split: sum.splits)

lemma handler_prepare_fails:
  assumes "prepare env (sql_of (searchParam_of search)) = Inl e"
  shows "handler env search =
     \<lparr> response = None, thrown = Some e, logged = [], connection_open = True \<rparr>"
  using assms by (simp add: handler_def)

text \<open>
  A failure of the engine that meets \<^verbatim>\<open>prepare\<close> leaves \<^verbatim>\<open>handler\<close> the same way, also
  on a database that has the tables.
\<close>

lemma handler_prepare_fault:
  assumes "env_fault env = Some (PrepareFault e)"
    and "parse_sql (sql_of (searchParam_of search)) = Query pattern"
  shows "handler env search =
     \<lparr> response = None, thrown = Some e, logged = [], connection_open = True \<rparr>"
  using assms by (simp add: handler_def prepare_def)

lemma parse_quote: "parse_sql (select_sql @ where_like [quote]) = Outside"
proof -
  have "strip_prefix '' WHERE P.NAME LIKE '' (where_like [quote])
      = Some (quote # ''%'' @ [quote] @ ''%'' @ [quote])"
    using strip_prefix_append [of "'' WHERE P.NAME LIKE ''" "quote # ''%'' @ [quote] @ ''%'' @ [quote]"]
    by (simp add: where_like_def)
  moreover have "closing_literal (quote # ''%'' @ [quote] @ ''%'' @ [quote]) = None"
    by (simp add: closing_literal_def)
  moreover have "where_like [quote] \<noteq> []" by (simp add: where_like_def)
  ultimately show ?thesis by (simp add: parse_sql_def strip_prefix_append)
qed

lemma handler_quote:
  assumes "env_outside env (select_sql @ where_like [quote]) = Inl e"
  shows "handler env (Some (Str [quote])) =
     \<lparr> response = None, thrown = Some e, logged = [], connection_open = True \<rparr>"
proof -
  have "sql_of (searchParam_of (Some (Str [quote]))) = select_sql @ where_like [quote]"
    by (simp add: sql_of_search)
  then have "prepare env (sql_of (searchParam_of (Some (Str [quote])))) = Inl e"
    using assms parse_quote by (simp add: prepare_def)
  then show ?thesis by (rule handler_prepare_fails)
qed

text \<open>
  Claim C5 as stated fails. The search value \<^verbatim>\<open>_\<close> returns Bob, whose name has no
  underscore: the value is a pattern, not a literal. The search value \<^verbatim>\<open>'\<close> gives the
  text \<^verbatim>\<open>... LIKE '%'%'\<close>, which SQLite refuses (the environment of the example says
  so), and the handler answers nothing.
\<close>

theorem underscore_matches_every_name:
  "handler
     \<lparr> env_file = Some
         \<lparr> DEPARTMENTS = [\<lparr> D_ID = ''d1'', D_NAME = ''Engineering'', D_PARENT = None \<rparr>],
           PEOPLE = [\<lparr> P_ID = ''p1'', P_NAME = ''Bob'', P_AVATAR_URL = None,
                       P_DEPARTMENT_ID = ''d1'' \<rparr>] \<rparr>,
       env_fault = None,
       env_outside = (\<lambda>sql. Inl (SqliteError ''syntax error'')) \<rparr>
     (Some (Str ''_''))
   = \<lparr> response = Some \<lparr> status = 200, results =
         [\<lparr> pr_id = ''p1'', pr_name = ''Bob'', pr_avatar = \<lparr> av_url = None \<rparr>,
            pr_department = \<lparr> dep_id = ''d1'', dep_name = ''Engineering'' \<rparr> \<rparr>] \<rparr>,
       thrown = None, logged = [], connection_open = False \<rparr>
   \<and> \<not> contains_ci ''_'' ''Bob''
   \<and> handler
     \<lparr> env_file = Some
         \<lparr> DEPARTMENTS = [\<lparr> D_ID = ''d1'', D_NAME = ''Engineering'', D_PARENT = None \<rparr>],
           PEOPLE = [\<lparr> P_ID = ''p1'', P_NAME = ''Bob'', P_AVATAR_URL = None,
                       P_DEPARTMENT_ID = ''d1'' \<rparr>] \<rparr>,
       env_fault = None,
       env_outside = (\<lambda>sql. Inl (SqliteError ''syntax error'')) \<rparr>
     (Some (Str [quote]))
   = \<lparr> response = None, thrown = Some (SqliteError ''syntax error''), logged = [],
       connection_open = True \<rparr>"
proof -
  let ?db = "\<lparr> DEPARTMENTS = [\<lparr> D_ID = ''d1'', D_NAME = ''Engineering'', D_PARENT = None \<rparr>],
           PEOPLE = [\<lparr> P_ID = ''p1'', P_NAME = ''Bob'', P_AVATAR_URL = None,
                       P_DEPARTMENT_ID = ''d1'' \<rparr>] \<rparr>"
  let ?env = "\<lparr> env_file = Some ?db, env_fault = None,
       env_outside = (\<lambda>sql. Inl (SqliteError ''syntax error'')) \<rparr>"
  have "parse_sql (sql_of (searchParam_of (Some (Str ''_'')))) = Query (Some ''%_%'')"
    using parse_where [of "''_''"] by (simp add: sql_of_search quote_def)
  moreover have "env_file ?env = Some ?db" "env_fault ?env = None" by simp_all
  ultimately have "handler ?env (Some (Str ''_'')) =
     \<lparr> response = Some \<lparr> status = 200,
         results = map to_record (select_rows ?db (Some ''%_%'')) \<rparr>,
       thrown = None, logged = [], connection_open = False \<rparr>"
    by (intro handler_select)
  moreover have "map to_record (select_rows ?db (Some ''%_%'')) =
         [\<lparr> pr_id = ''p1'', pr_name = ''Bob'', pr_avatar = \<lparr> av_url = None \<rparr>,
            pr_department = \<lparr> dep_id = ''d1'', dep_name = ''Engineering'' \<rparr> \<rparr>]"
    by (simp add: select_rows_def name_matches_def sql_like_def until_nul_def
        to_record_def join_row_def)
  moreover have "handler ?env (Some (Str [quote])) =
     \<lparr> response = None, thrown = Some (SqliteError ''syntax error''), logged = [],
       connection_open = True \<rparr>"
    by (rule handler_quote) simp
  ultimately show ?thesis using underscore_not_in_Bob by simp
qed

text \<open>
  Claim C1. The claim does not hold when \<^verbatim>\<open>prepare\<close> throws: on a database file that
  has no tables yet, the handler throws \<^verbatim>\<open>no such table: PEOPLE\<close> at line 42, before
  the \<^verbatim>\<open>try\<close>, and line 70 never sends the status 200.
\<close>

theorem handler_throws_without_tables:
  "handler \<lparr> env_file = None, env_fault = None,
             env_outside = (\<lambda>sql. Inl (SqliteError ''syntax error'')) \<rparr> None
   = \<lparr> response = None, thrown = Some (NoSuchTable ''PEOPLE''), logged = [],
       connection_open = True \<rparr>"
  using parse_select by (simp add: handler_def prepare_def sql_of_absent)

text \<open>
  Claim C9. The claim does not hold when \<^verbatim>\<open>prepare\<close> throws: the connection opened
  at line 21 is closed only by the \<^verbatim>\<open>finally\<close> of the \<^verbatim>\<open>try\<close> that begins at line 46.
\<close>

theorem handler_leaves_connection_open:
  "connection_open
     (handler \<lparr> env_file = None, env_fault = None,
                env_outside = (\<lambda>sql. Inl (SqliteError ''syntax error'')) \<rparr>
        (Some (Str ''an''))) = True"
proof -
  have "parse_sql (sql_of (searchParam_of (Some (Str ''an'')))) = Query (Some ''%an%'')"
    using parse_where [of "''an''"] by (simp add: sql_of_search quote_def)
  then show ?thesis by (simp add: handler_def prepare_def)
qed

end
